theory Spec2Isabelle
  imports Main "HOL-Library.Word" "HOL-Library.Sublist"
begin

section \<open>Package arp: CheckWithTimeout\<close>

text \<open>
  The Go function \<^verbatim>\<open>CheckWithTimeout(ifi, srcPod, gateway, timeout)\<close> makes up to three
  calls into package \<^verbatim>\<open>arping\<close> and turns their results into an error value.
  Package \<^verbatim>\<open>arping\<close> does raw socket I/O and lives elsewhere in the repository, and
  the \<^verbatim>\<open>String()\<close> methods belong to the Go standard library: both are parameters
  of the model (record \<open>externals\<close>). The I/O threads an abstract world \<open>'w\<close>; the model
  also returns the list of \<^verbatim>\<open>arping\<close> calls it made, in order.
\<close>

type_synonym byte = "8 word"

text \<open>\<^verbatim>\<open>net.IP\<close> and \<^verbatim>\<open>net.HardwareAddr\<close> are byte slices; \<^verbatim>\<open>time.Duration\<close> is an int64.\<close>

type_synonym IP = "byte list"
type_synonym HardwareAddr = "byte list"
type_synonym Duration = "64 word"

text \<open>\<^verbatim>\<open>net.Interface\<close>; the function receives a pointer to it, \<open>None\<close> is the nil pointer.\<close>

record Interface =
  Index :: int
  MTU :: int
  Name :: string
  HardwareAddr :: HardwareAddr
  Flags :: "32 word"

text \<open>
  Go \<^verbatim>\<open>error\<close> values. \<open>errorString\<close> is what \<^verbatim>\<open>fmt.Errorf\<close> builds when the format has
  no \<^verbatim>\<open>%w\<close> verb: a value holding the formatted text and nothing else.

  Modelled from the spec: the three other constructors are the structured error variants
  that the error taxonomy of the spec names for activation (\<open>GatewayUnreachable{interface,
  source, gateway, cause}\<close>, \<open>DuplicateAddress{address, responderMAC}\<close>,
  \<open>AnnounceFailed{cause}\<close>). The source declares no such types.
\<close>

datatype error =
    errorString string
  | GatewayUnreachable Interface IP IP string
  | DuplicateAddress IP HardwareAddr
  | AnnounceFailed string

fun is_structured :: "error \<Rightarrow> bool" where
  "is_structured (errorString m) = False"
| "is_structured (GatewayUnreachable i s g c) = True"
| "is_structured (DuplicateAddress s h) = True"
| "is_structured (AnnounceFailed c) = True"

text \<open>What stops a Go function without a return value: a run-time panic.\<close>

datatype panic = NilPointerDereference | TypeAssertionFailed

text \<open>
  An error returned by \<^verbatim>\<open>arping\<close> is only ever formatted with \<^verbatim>\<open>%v\<close>, which prints the
  text of its \<^verbatim>\<open>Error()\<close> method, so it is represented by that text.
\<close>

type_synonym cause = string

record 'w externals =
  IP_String :: "IP \<Rightarrow> string"
  HardwareAddr_String :: "HardwareAddr \<Rightarrow> string"
  PingOverIface :: "IP \<Rightarrow> IP \<Rightarrow> Interface option \<Rightarrow> Duration \<Rightarrow> 'w
                      \<Rightarrow> (HardwareAddr \<times> cause option) \<times> 'w"
  GratuitousOverIface :: "IP \<Rightarrow> Interface option \<Rightarrow> 'w \<Rightarrow> cause option \<times> 'w"

datatype arping_call =
    PingCall IP IP "Interface option" Duration
  | GratuitousCall IP "Interface option"

text \<open>The value of \<^verbatim>\<open>net.ParseIP("0.0.0.0")\<close>: the 16-byte form of the IPv4 address.\<close>

definition ParseIP_0_0_0_0 :: IP where
  "ParseIP_0_0_0_0 = [0, 0, 0, 0, 0, 0, 0, 0, 0, 0, 0xff, 0xff, 0, 0, 0, 0]"

text \<open>The three format strings of the source, with \<^verbatim>\<open>%v\<close> filled in.\<close>

definition gateway_failed_msg :: "string \<Rightarrow> string \<Rightarrow> cause \<Rightarrow> string \<Rightarrow> string" where
  "gateway_failed_msg src gw err ifname =
     ''arp resolve from pod '' @ src @ '' to gateway '' @ gw @ '' failed: '' @ err @
     '', vlan network seems not working, please check the setting of '' @ ifname @
     [CHR 39] @ ''s upper physical switch port first''"

definition duplicated_msg :: "string \<Rightarrow> string \<Rightarrow> string" where
  "duplicated_msg src hw =
     ''pod ip '' @ src @ '' duplicated'' @
     '', please check if ip '' @ src @
     '' is occupied by other machines or containers, another hw addr is '' @ hw"

definition gratuitous_failed_msg :: "string \<Rightarrow> cause \<Rightarrow> string" where
  "gratuitous_failed_msg src err = ''send gratuitous arp for pod '' @ src @ '' failed '' @ err"

text \<open>
  The result is \<open>Inl\<close> for a panic (reading \<^verbatim>\<open>ifi.Name\<close> through a nil pointer), otherwise
  \<open>Inr\<close> of the returned error, \<open>None\<close> being Go's nil.
\<close>

definition CheckWithTimeout ::
  "'w externals \<Rightarrow> Interface option \<Rightarrow> IP \<Rightarrow> IP \<Rightarrow> Duration \<Rightarrow> 'w
     \<Rightarrow> (panic + error option) \<times> arping_call list \<times> 'w" where
  "CheckWithTimeout x ifi srcPod gateway timeout w =
     (case PingOverIface x srcPod gateway ifi timeout w of
        ((_, Some err), w1) \<Rightarrow>
          (case ifi of
             None \<Rightarrow> (Inl NilPointerDereference, [PingCall srcPod gateway ifi timeout], w1)
           | Some i \<Rightarrow>
               (Inr (Some (errorString
                       (gateway_failed_msg (IP_String x srcPod) (IP_String x gateway) err (Name i)))),
                [PingCall srcPod gateway ifi timeout], w1))
      | ((_, None), w1) \<Rightarrow>
          (case PingOverIface x ParseIP_0_0_0_0 srcPod ifi timeout w1 of
             ((duplicatedHw, None), w2) \<Rightarrow>
               (Inr (Some (errorString
                       (duplicated_msg (IP_String x srcPod) (HardwareAddr_String x duplicatedHw)))),
                [PingCall srcPod gateway ifi timeout,
                 PingCall ParseIP_0_0_0_0 srcPod ifi timeout], w2)
           | ((_, Some _), w2) \<Rightarrow>
               (case GratuitousOverIface x srcPod ifi w2 of
                  (Some err, w3) \<Rightarrow>
                    (Inr (Some (errorString (gratuitous_failed_msg (IP_String x srcPod) err))),
                     [PingCall srcPod gateway ifi timeout,
                      PingCall ParseIP_0_0_0_0 srcPod ifi timeout,
                      GratuitousCall srcPod ifi], w3)
                | (None, w3) \<Rightarrow>
                    (Inr None,
                     [PingCall srcPod gateway ifi timeout,
                      PingCall ParseIP_0_0_0_0 srcPod ifi timeout,
                      GratuitousCall srcPod ifi], w3))))"


subsection \<open>A small segment to run the function on\<close>

text \<open>
  A stand-in for package \<^verbatim>\<open>arping\<close> on which closed instances can be evaluated: the
  world lists the stations that answer ARP for an address, the sender addresses for which
  a request cannot be transmitted (with the error of the send), and whether the link
  accepts announcements. A transmitted probe of a listed address is answered with its
  hardware address, any other transmitted probe times out.

  The two \<^verbatim>\<open>String()\<close> methods of the stand-in print as Go does: a hardware address as
  two-digit hexadecimal bytes joined by colons; an IP address as \<open><nil>\<close> when it is empty,
  as a dotted quad when it has four bytes or is the 16-byte form of an IPv4 address, and
  as \<open>?\<close> followed by its hexadecimal digits when it has another length. The one
  departure: a 16-byte address that is not of IPv4 (which ARP does not carry) is printed
  like an address of another length, not in the notation of IPv6.
\<close>

definition digit :: "nat \<Rightarrow> char" where
  "digit k = ''0123456789abcdef'' ! k"

definition show_byte :: "byte \<Rightarrow> string" where
  "show_byte b =
     (let n = unat b
      in (if 100 \<le> n then [digit (n div 100)] else []) @
         (if 10 \<le> n then [digit ((n div 10) mod 10)] else []) @
         [digit (n mod 10)])"

fun dotted :: "byte list \<Rightarrow> string" where
  "dotted [] = []"
| "dotted [b] = show_byte b"
| "dotted (b # bs) = show_byte b @ ''.'' @ dotted bs"

definition hex_byte :: "byte \<Rightarrow> string" where
  "hex_byte b = [digit (unat b div 16), digit (unat b mod 16)]"

fun colon_hex :: "byte list \<Rightarrow> string" where
  "colon_hex [] = []"
| "colon_hex [b] = hex_byte b"
| "colon_hex (b # bs) = hex_byte b @ '':'' @ colon_hex bs"

definition v4InV6Prefix :: "byte list" where
  "v4InV6Prefix = [0, 0, 0, 0, 0, 0, 0, 0, 0, 0, 0xff, 0xff]"

definition ip_text :: "IP \<Rightarrow> string" where
  "ip_text ip =
     (if ip = [] then ''<nil>''
      else if length ip = 4 then dotted ip
      else if length ip = 16 \<and> take 12 ip = v4InV6Prefix then dotted (drop 12 ip)
      else CHR ''?'' # concat (map hex_byte ip))"

record lan =
  hosts :: "(IP \<times> HardwareAddr) list"
  tx_fault :: "(IP \<times> cause) list"
  link_up :: bool

definition lan_externals :: "lan externals" where
  "lan_externals =
     \<lparr> IP_String = ip_text,
       HardwareAddr_String = colon_hex,
       PingOverIface = (\<lambda>src dst ifi timeout w.
          (case map_of (tx_fault w) src of
             Some c \<Rightarrow> (([], Some c), w)
           | None \<Rightarrow>
               (case map_of (hosts w) dst of
                  Some hw \<Rightarrow> ((hw, None), w)
                | None \<Rightarrow> (([], Some ''timeout''), w)))),
       GratuitousOverIface = (\<lambda>src ifi w.
          ((if link_up w then None else Some ''network is down''), w)) \<rparr>"

definition pod_ip :: IP where
  "pod_ip = [10, 0, 0, 5]"

definition gateway_ip :: IP where
  "gateway_ip = [10, 0, 0, 1]"

definition gateway_station :: "IP \<times> HardwareAddr" where
  "gateway_station = ([10, 0, 0, 1], [2, 0, 0, 0, 0, 9])"

definition squatter_station :: "IP \<times> HardwareAddr" where
  "squatter_station = ([10, 0, 0, 5], [2, 0, 0, 0, 0, 7])"

definition eth0 :: Interface where
  "eth0 = \<lparr> Index = 2, MTU = 1500, Name = ''eth0'',
            HardwareAddr = [2, 0, 0, 0, 0, 1], Flags = 0 \<rparr>"

definition lan_silent :: lan where
  "lan_silent = \<lparr> hosts = [], tx_fault = [], link_up = True \<rparr>"

definition lan_healthy :: lan where
  "lan_healthy = \<lparr> hosts = [gateway_station], tx_fault = [], link_up = True \<rparr>"

definition lan_squatted :: lan where
  "lan_squatted = \<lparr> hosts = [gateway_station, squatter_station], tx_fault = [], link_up = True \<rparr>"

definition lan_link_down :: lan where
  "lan_link_down = \<lparr> hosts = [gateway_station], tx_fault = [], link_up = False \<rparr>"

definition lan_probe_blocked :: lan where
  "lan_probe_blocked =
     \<lparr> hosts = [gateway_station, squatter_station],
       tx_fault = [(ParseIP_0_0_0_0, ''sendto: operation not permitted'')],
       link_up = True \<rparr>"

subsection \<open>A clock\<close>

text \<open>
  A \<^verbatim>\<open>time.Duration\<close> counts nanoseconds in a signed 64-bit integer; a timeout that is
  not positive expires at once.
\<close>

definition nanoseconds :: "Duration \<Rightarrow> nat" where
  "nanoseconds d = nat (sint d)"

text \<open>
  A second stand-in for package \<^verbatim>\<open>arping\<close>, in which the world is the reading of a
  clock, in nanoseconds. The gateway answers at once, a probe of any other address runs
  into its timeout, and sending the announcement takes 5000 ns whatever the timeout is.
\<close>

definition slow_announce_externals :: "nat externals" where
  "slow_announce_externals =
     \<lparr> IP_String = ip_text,
       HardwareAddr_String = colon_hex,
       PingOverIface = (\<lambda>src dst ifi timeout now.
          (if dst = gateway_ip then (([2, 0, 0, 0, 0, 9], None), now)
           else (([], Some ''timeout''), now + nanoseconds timeout))),
       GratuitousOverIface = (\<lambda>src ifi now. (None, now + 5000)) \<rparr>"

section \<open>Package controller: the event handler for RemoteVtep\<close>

text \<open>
  The fields of \<^verbatim>\<open>multiclusterv1.RemoteVtep\<close> that the handler reads. \<^verbatim>\<open>Annotations\<close> is a
  Go \<^verbatim>\<open>map[string]string\<close>: indexing it with an absent key (or indexing a nil map) gives
  the empty string.
\<close>

record VTEPInfo =
  IP :: string
  MAC :: string

record RemoteVtepSpec =
  VTEPInfo :: VTEPInfo
  EndpointIPList :: "string list"

record RemoteVtep =
  Annotations :: "string \<rightharpoonup> string"
  Spec :: RemoteVtepSpec

definition index_map :: "(string \<rightharpoonup> string) \<Rightarrow> string \<Rightarrow> string" where
  "index_map m k = (case m k of None \<Rightarrow> [] | Some v \<Rightarrow> v)"

text \<open>
  The event carries two values of the interface type \<^verbatim>\<open>client.Object\<close>: nil, a
  \<^verbatim>\<open>*RemoteVtep\<close> (possibly a nil pointer), or a value of another type.
\<close>

datatype Object = NilObject | RemoteVtepPtr "RemoteVtep option" | OtherObject

record UpdateEvent =
  ObjectOld :: Object
  ObjectNew :: Object

text \<open>
  Two constants that the handler uses are declared elsewhere in the repository
  (\<^verbatim>\<open>constants.AnnotationNodeLocalVxlanIPList\<close> and \<^verbatim>\<open>ActionReconcileNode\<close>); their values
  are parameters. The queue is represented by the items handed to its \<^verbatim>\<open>Add\<close> method,
  oldest first.
\<close>

record 'item package_consts =
  AnnotationNodeLocalVxlanIPList :: string
  ActionReconcileNode :: 'item

definition Add :: "'item list \<Rightarrow> 'item \<Rightarrow> 'item list" where
  "Add q item = q @ [item]"

text \<open>
  Modelled from the spec: \<^verbatim>\<open>isIPListEqual\<close> is called by the handler and defined in another
  file of the package. The spec describes the comparison of the
  endpoint address list as position-sensitive: the lists are equal when they have the
  same length and the same entry at every position.
\<close>

fun isIPListEqual :: "string list \<Rightarrow> string list \<Rightarrow> bool" where
  "isIPListEqual [] [] = True"
| "isIPListEqual (x # xs) (y # ys) = (x = y \<and> isIPListEqual xs ys)"
| "isIPListEqual _ _ = False"

definition Create :: "'item package_consts \<Rightarrow> 'item list \<Rightarrow> 'item list" where
  "Create c q = Add q (ActionReconcileNode c)"

definition Update :: "'item package_consts \<Rightarrow> UpdateEvent \<Rightarrow> 'item list \<Rightarrow> panic + 'item list" where
  "Update c evt q =
     (case ObjectOld evt of
        RemoteVtepPtr oldPtr \<Rightarrow>
          (case ObjectNew evt of
             RemoteVtepPtr newPtr \<Rightarrow>
               (case (oldPtr, newPtr) of
                  (Some oldRemoteVtep, Some newRemoteVtep) \<Rightarrow>
                    Inr (if IP (VTEPInfo (Spec oldRemoteVtep)) \<noteq> IP (VTEPInfo (Spec newRemoteVtep)) \<or>
                            MAC (VTEPInfo (Spec oldRemoteVtep)) \<noteq> MAC (VTEPInfo (Spec newRemoteVtep)) \<or>
                            index_map (Annotations oldRemoteVtep) (AnnotationNodeLocalVxlanIPList c) \<noteq>
                              index_map (Annotations newRemoteVtep) (AnnotationNodeLocalVxlanIPList c) \<or>
                            \<not> isIPListEqual (EndpointIPList (Spec oldRemoteVtep))
                                              (EndpointIPList (Spec newRemoteVtep))
                         then Add q (ActionReconcileNode c)
                         else q)
                | _ \<Rightarrow> Inl NilPointerDereference)
           | _ \<Rightarrow> Inl TypeAssertionFailed)
      | _ \<Rightarrow> Inl TypeAssertionFailed)"

definition Delete :: "'item package_consts \<Rightarrow> 'item list \<Rightarrow> 'item list" where
  "Delete c q = Add q (ActionReconcileNode c)"

definition demo_consts :: "string package_consts" where
  "demo_consts = \<lparr> AnnotationNodeLocalVxlanIPList = ''local-vxlan-ip-list'',
                    ActionReconcileNode = ''ReconcileNode'' \<rparr>"

definition peer :: "string \<Rightarrow> string \<Rightarrow> string option \<Rightarrow> string list \<Rightarrow> RemoteVtep" where
  "peer ip hw ann eps =
     \<lparr> Annotations = (\<lambda>k. if k = ''local-vxlan-ip-list'' then ann else None),
       Spec = \<lparr> VTEPInfo = \<lparr> IP = ip, MAC = hw \<rparr>, EndpointIPList = eps \<rparr> \<rparr>"


section \<open>AddressAllocator and RetentionStore\<close>

text \<open>
  The integration tests of the pod controller (\<^verbatim>\<open>Pod controller integration test suite\<close>)
  create pods, delete them and read the resulting IP instances back; the allocator they
  exercise is implemented in other files of the repository. This section gives the
  allocator and the retention store as the spec describes them; the names of the record
  fields follow the IP instances that the tests inspect.
\<close>

subsection \<open>Data model\<close>

text \<open>
  Modelled from the spec: the data model of networks, subnets, address records with their
  binding, and workload identities. Addresses and MACs are numbers. The CIDR range of a
  subnet is the list of its addresses; the parent network of a subnet is held by value.
  A workload is a pod as the tests render it (name, UID, node) with the reference to its
  owning controller, if it has one.
\<close>

datatype NetworkType = Underlay | Overlay

datatype AddressFamily = IPv4 | IPv6

record Network =
  network_name :: string
  network_type :: NetworkType
  network_families :: "AddressFamily list"

record Subnet =
  subnet_name :: string
  parent :: Network
  subnet_family :: AddressFamily
  cidr :: "nat list"
  excluded :: "nat set"

record ReferredObject =
  ref_kind :: string
  ref_name :: string
  ref_uid :: string

record Binding =
  PodUID :: string
  PodName :: string
  NodeName :: string
  ReferredObject :: ReferredObject
  Stateful :: "nat option"

record AddressRecord =
  address :: nat
  family :: AddressFamily
  mac :: nat
  subnet :: string
  network :: string
  binding :: Binding

record Workload =
  pod_name :: string
  pod_uid :: string
  pod_node :: string
  owner :: "ReferredObject option"

record WorkloadIdentity =
  referred :: ReferredObject
  ordinal :: "nat option"

record Criteria =
  networkType :: NetworkType
  families :: "AddressFamily list"

datatype allocation_error = ExhaustedPool | NoEligibleSubnet | RetentionLookupInconsistent

subsection \<open>Workload identity\<close>

text \<open>
  Modelled from the spec: the ordinal of a workload is the integer suffix of its name
  after the last separator (\<open>pod-7\<close> gives 7); a name without separator, with an empty
  suffix or with a suffix that is not a decimal number has none.
\<close>

definition is_digit :: "char \<Rightarrow> bool" where
  "is_digit c = (c \<in> set ''0123456789'')"

definition digit_value :: "char \<Rightarrow> nat" where
  "digit_value c = of_char c - 48"

definition parse_ordinal :: "string \<Rightarrow> nat option" where
  "parse_ordinal nm =
     (let suffix = rev (takeWhile (\<lambda>c. c \<noteq> CHR ''-'') (rev nm))
      in if CHR ''-'' \<notin> set nm \<or> suffix = [] \<or> \<not> list_all is_digit suffix then None
         else Some (foldl (\<lambda>n c. 10 * n + digit_value c) 0 suffix))"

text \<open>
  Modelled from the spec: the identity of a workload is its referred object (the owning
  controller, or the pod itself when there is none) plus the ordinal parsed from its name.
  An identity is stateful iff the referred object names a controller kind and the name
  carries an ordinal.
\<close>

definition identity_of :: "Workload \<Rightarrow> WorkloadIdentity" where
  "identity_of w =
     (case owner w of
        None \<Rightarrow> \<lparr> referred = \<lparr> ref_kind = ''Pod'', ref_name = pod_name w, ref_uid = pod_uid w \<rparr>,
                  ordinal = None \<rparr>
      | Some c \<Rightarrow> \<lparr> referred = c, ordinal = parse_ordinal (pod_name w) \<rparr>)"

definition is_stateful :: "WorkloadIdentity \<Rightarrow> bool" where
  "is_stateful ident = (ref_kind (referred ident) \<noteq> ''Pod'' \<and> ordinal ident \<noteq> None)"

subsection \<open>RetentionStore\<close>

text \<open>
  Modelled from the spec: the retention store keeps address records under the key
  (referred object, ordinal), never under the pod UID. \<open>Retain\<close> files a record under the
  key that its own binding gives (the two records of a dual-stack pair end up under one
  key); \<open>Lookup\<close> returns what is stored under exactly the key of the identity and
  changes nothing; \<open>Forget\<close> takes the entry of an identity out of the store.
\<close>

type_synonym RetentionStore = "(ReferredObject \<times> nat) \<rightharpoonup> AddressRecord list"

definition key_of_record :: "AddressRecord \<Rightarrow> (ReferredObject \<times> nat) option" where
  "key_of_record r =
     (case Stateful (binding r) of
        None \<Rightarrow> None
      | Some k \<Rightarrow> Some (ReferredObject (binding r), k))"

definition key_of_identity :: "WorkloadIdentity \<Rightarrow> (ReferredObject \<times> nat) option" where
  "key_of_identity ident =
     (if is_stateful ident then map_option (\<lambda>k. (referred ident, k)) (ordinal ident) else None)"

definition Retain :: "RetentionStore \<Rightarrow> AddressRecord \<Rightarrow> RetentionStore" where
  "Retain store r =
     (case key_of_record r of
        None \<Rightarrow> store
      | Some key \<Rightarrow> store(key \<mapsto> (case store key of None \<Rightarrow> [] | Some rs \<Rightarrow> rs) @ [r]))"

definition Lookup :: "RetentionStore \<Rightarrow> WorkloadIdentity \<Rightarrow> AddressRecord list option" where
  "Lookup store ident =
     (case key_of_identity ident of None \<Rightarrow> None | Some key \<Rightarrow> store key)"

definition Forget :: "RetentionStore \<Rightarrow> WorkloadIdentity \<Rightarrow> RetentionStore" where
  "Forget store ident =
     (case key_of_identity ident of None \<Rightarrow> store | Some key \<Rightarrow> store(key := None))"

subsection \<open>AddressAllocator\<close>

text \<open>
  Modelled from the spec: the allocator owns the used addresses of every subnet, the
  records currently bound to a workload, the retention store and the source of MACs.
\<close>

record Allocator =
  used :: "string \<Rightarrow> nat set"
  bound :: "WorkloadIdentity \<rightharpoonup> AddressRecord list"
  retention :: RetentionStore
  next_mac :: nat

definition empty_allocator :: Allocator where
  "empty_allocator = \<lparr> used = (\<lambda>_. {}), bound = Map.empty, retention = Map.empty, next_mac = 0 \<rparr>"

text \<open>
  Modelled from the spec: selection of an address for one family. The eligible subnets
  are filtered by network type and family; the first of them (in the order given) that
  has a free address is picked, and its first address that is neither excluded nor used
  is marked used. No matching subnet is \<open>NoEligibleSubnet\<close>, no free address in any
  matching subnet is \<open>ExhaustedPool\<close>.
\<close>

definition free_address :: "Allocator \<Rightarrow> Subnet \<Rightarrow> nat option" where
  "free_address st s =
     find (\<lambda>a. a \<notin> excluded s \<and> a \<notin> used st (subnet_name s)) (cidr s)"

definition eligible :: "NetworkType \<Rightarrow> AddressFamily \<Rightarrow> Subnet list \<Rightarrow> Subnet list" where
  "eligible nt f subnets =
     filter (\<lambda>s. network_type (parent s) = nt \<and> subnet_family s = f) subnets"

fun pick_subnet :: "Allocator \<Rightarrow> Subnet list \<Rightarrow> (Subnet \<times> nat) option" where
  "pick_subnet st [] = None"
| "pick_subnet st (s # ss) =
     (case free_address st s of
        Some a \<Rightarrow> Some (s, a)
      | None \<Rightarrow> pick_subnet st ss)"

definition mark_used :: "Allocator \<Rightarrow> string \<Rightarrow> nat \<Rightarrow> Allocator" where
  "mark_used st sn a = st\<lparr> used := (used st)(sn := insert a (used st sn)) \<rparr>"

definition mark_free :: "Allocator \<Rightarrow> AddressRecord \<Rightarrow> Allocator" where
  "mark_free st r = st\<lparr> used := (used st)(subnet r := used st (subnet r) - {address r}) \<rparr>"

definition allocate_one ::
  "Allocator \<Rightarrow> Binding \<Rightarrow> nat \<Rightarrow> NetworkType \<Rightarrow> AddressFamily \<Rightarrow> Subnet list
     \<Rightarrow> allocation_error + (AddressRecord \<times> Allocator)" where
  "allocate_one st b m nt f subnets =
     (case eligible nt f subnets of
        [] \<Rightarrow> Inl NoEligibleSubnet
      | c # cs \<Rightarrow>
          (case pick_subnet st (c # cs) of
             None \<Rightarrow> Inl ExhaustedPool
           | Some (s, a) \<Rightarrow>
               Inr (\<lparr> address = a, family = f, mac = m, subnet = subnet_name s,
                       network = network_name (parent s), binding = b \<rparr>,
                    mark_used st (subnet_name s) a)))"

text \<open>
  Modelled from the spec: one record per requested family, in the order requested, all
  with the binding and the MAC handed in; the first failure aborts the attempt.
\<close>

fun allocate_families ::
  "Allocator \<Rightarrow> Binding \<Rightarrow> nat \<Rightarrow> NetworkType \<Rightarrow> AddressFamily list \<Rightarrow> Subnet list
     \<Rightarrow> allocation_error + (AddressRecord list \<times> Allocator)" where
  "allocate_families st b m nt [] subnets = Inr ([], st)"
| "allocate_families st b m nt (f # fs) subnets =
     (case allocate_one st b m nt f subnets of
        Inl e \<Rightarrow> Inl e
      | Inr (r, st1) \<Rightarrow>
          (case allocate_families st1 b m nt fs subnets of
             Inl e \<Rightarrow> Inl e
           | Inr (rs, st2) \<Rightarrow> Inr (r # rs, st2)))"

text \<open>
  Modelled from the spec: a fresh allocation. One MAC is generated, once, and attached to
  the record of every requested family; the binding names the pod (UID, name, node), the
  referred object of its identity and, for a stateful identity only, the ordinal. Rebinding
  a retained record updates the pod UID, the pod name and the node name and nothing else.
\<close>

definition generate_mac :: "Allocator \<Rightarrow> nat \<times> Allocator" where
  "generate_mac st = (next_mac st, st\<lparr> next_mac := Suc (next_mac st) \<rparr>)"

definition new_binding :: "Workload \<Rightarrow> WorkloadIdentity \<Rightarrow> Binding" where
  "new_binding w ident =
     \<lparr> PodUID = pod_uid w, PodName = pod_name w, NodeName = pod_node w,
       ReferredObject = referred ident,
       Stateful = (if is_stateful ident then ordinal ident else None) \<rparr>"

definition rebind :: "Workload \<Rightarrow> AddressRecord \<Rightarrow> AddressRecord" where
  "rebind w r =
     r\<lparr> binding := (binding r)\<lparr> PodUID := pod_uid w, PodName := pod_name w,
                                 NodeName := pod_node w \<rparr> \<rparr>"

definition allocate_fresh ::
  "Allocator \<Rightarrow> Workload \<Rightarrow> Criteria \<Rightarrow> Subnet list
     \<Rightarrow> allocation_error + (AddressRecord list \<times> Allocator)" where
  "allocate_fresh st w criteria eligibleSubnets =
     (case generate_mac st of
        (m, st1) \<Rightarrow>
          (case allocate_families st1 (new_binding w (identity_of w)) m
                  (networkType criteria) (families criteria) eligibleSubnets of
             Inl e \<Rightarrow> Inl e
           | Inr (rs, st2) \<Rightarrow> Inr (rs, st2\<lparr> bound := (bound st2)(identity_of w \<mapsto> rs) \<rparr>)))"

text \<open>
  Modelled from the spec: \<open>Allocate\<close>. The retention store is consulted first with the
  identity of the workload. What is retained for it (one record, or the pair of a
  dual-stack workload) is rebound: pod UID, pod name and node name are updated, the
  records leave the store and are returned, and no new address is consumed. A stored
  record whose binding does not give the key of the requested identity is
  \<open>RetentionLookupInconsistent\<close>. With nothing retained, one MAC is generated and a fresh
  record is allocated for every requested family.
\<close>

definition Allocate ::
  "Allocator \<Rightarrow> Workload \<Rightarrow> Criteria \<Rightarrow> Subnet list
     \<Rightarrow> allocation_error + (AddressRecord list \<times> Allocator)" where
  "Allocate st w criteria eligibleSubnets =
     (case Lookup (retention st) (identity_of w) of
        Some rs \<Rightarrow>
          if list_ex (\<lambda>r. key_of_record r \<noteq> key_of_identity (identity_of w)) rs
          then Inl RetentionLookupInconsistent
          else Inr (map (rebind w) rs,
                    st\<lparr> retention := Forget (retention st) (identity_of w),
                        bound := (bound st)(identity_of w \<mapsto> map (rebind w) rs) \<rparr>)
      | None \<Rightarrow> allocate_fresh st w criteria eligibleSubnets)"

text \<open>
  Modelled from the spec: \<open>Release\<close>. For an identity that is not stateful the addresses
  go back to the free pool and the records are discarded. For a stateful identity only
  the pod UID and the node name of the binding are cleared, and the records are handed
  to the retention store.
\<close>

definition clear_binding :: "AddressRecord \<Rightarrow> AddressRecord" where
  "clear_binding r = r\<lparr> binding := (binding r)\<lparr> PodUID := [], NodeName := [] \<rparr> \<rparr>"

definition Release :: "Allocator \<Rightarrow> WorkloadIdentity \<Rightarrow> Allocator" where
  "Release st ident =
     (case bound st ident of
        None \<Rightarrow> st
      | Some rs \<Rightarrow>
          if is_stateful ident
          then st\<lparr> bound := (bound st)(ident := None),
                   retention := foldl Retain (retention st) (map clear_binding rs) \<rparr>
          else (foldl mark_free st rs)\<lparr> bound := (bound st)(ident := None) \<rparr>)"

text \<open>
  Modelled from the spec: \<open>Purge\<close> removes what is retained for an identity and returns
  its addresses to the free pool of their subnets.
\<close>

definition Purge :: "Allocator \<Rightarrow> WorkloadIdentity \<Rightarrow> Allocator" where
  "Purge st ident =
     (case Lookup (retention st) ident of
        None \<Rightarrow> st
      | Some rs \<Rightarrow> (foldl mark_free st rs)\<lparr> retention := Forget (retention st) ident \<rparr>)"

subsection \<open>Runs of the allocator\<close>

text \<open>
  A run is a sequence of operations on the allocator; a failed allocation leaves the
  state as it was.
\<close>

datatype operation =
    DoAllocate Workload Criteria "Subnet list"
  | DoRelease WorkloadIdentity
  | DoPurge WorkloadIdentity

fun subject :: "operation \<Rightarrow> WorkloadIdentity" where
  "subject (DoAllocate w c subnets) = identity_of w"
| "subject (DoRelease ident) = ident"
| "subject (DoPurge ident) = ident"

fun perform :: "Allocator \<Rightarrow> operation \<Rightarrow> Allocator" where
  "perform st (DoAllocate w c subnets) =
     (case Allocate st w c subnets of Inl e \<Rightarrow> st | Inr (rs, st') \<Rightarrow> st')"
| "perform st (DoRelease ident) = Release st ident"
| "perform st (DoPurge ident) = Purge st ident"

definition run :: "Allocator \<Rightarrow> operation list \<Rightarrow> Allocator" where
  "run st ops = foldl perform st ops"

text \<open>
  Predicates used to state the properties below. In a consistent state the records bound
  to an identity carry the key of that identity. A dual-stack pair is a list of two
  records, the first IPv4 and the second IPv6, with one MAC.
\<close>

definition bound_consistent :: "Allocator \<Rightarrow> bool" where
  "bound_consistent st =
     (\<forall>ident rs. bound st ident = Some rs \<longrightarrow>
        (\<forall>r \<in> set rs. key_of_record r = key_of_identity ident))"

definition dual_stack_pair :: "AddressRecord list \<Rightarrow> bool" where
  "dual_stack_pair rs =
     (case rs of
        [r4, r6] \<Rightarrow> family r4 = IPv4 \<and> family r6 = IPv6 \<and> mac r4 = mac r6
      | _ \<Rightarrow> False)"

text \<open>
  A record holds a slot: an address of a subnet. The allocator keeps records in two kinds
  of places, bound to an identity or retained under a key. A state is well formed when it
  is consistent and its slots are held exclusively: no place lists a slot twice, no two
  places share a slot, and every slot that is held is marked used in its subnet. Every
  state that a run reaches from the empty allocator is well formed.
\<close>

definition slot :: "AddressRecord \<Rightarrow> string \<times> nat" where
  "slot r = (subnet r, address r)"

datatype place = BoundTo WorkloadIdentity | RetainedFor "ReferredObject \<times> nat"

definition records_at :: "Allocator \<Rightarrow> place \<Rightarrow> AddressRecord list" where
  "records_at st p =
     (case p of
        BoundTo ident \<Rightarrow> (case bound st ident of None \<Rightarrow> [] | Some rs \<Rightarrow> rs)
      | RetainedFor key \<Rightarrow> (case retention st key of None \<Rightarrow> [] | Some rs \<Rightarrow> rs))"

definition slots_at :: "Allocator \<Rightarrow> place \<Rightarrow> (string \<times> nat) list" where
  "slots_at st p = map slot (records_at st p)"

definition used_slots :: "Allocator \<Rightarrow> (string \<times> nat) set" where
  "used_slots st = {(sn, a). a \<in> used st sn}"

definition exclusive :: "('p \<Rightarrow> 's list) \<Rightarrow> 's set \<Rightarrow> bool" where
  "exclusive S U =
     ((\<forall>p. distinct (S p)) \<and>
      (\<forall>p q. p \<noteq> q \<longrightarrow> set (S p) \<inter> set (S q) = {}) \<and>
      (\<forall>p. set (S p) \<subseteq> U))"

definition well_formed :: "Allocator \<Rightarrow> bool" where
  "well_formed st = (bound_consistent st \<and> exclusive (slots_at st) (used_slots st))"

text \<open>
  An operation that, if it is an allocation, asks for both families; and the state of an
  identity for which whatever is bound or retained is a dual-stack pair.
\<close>

fun requests_both_families :: "operation \<Rightarrow> bool" where
  "requests_both_families (DoAllocate w c subnets) = (families c = [IPv4, IPv6])"
| "requests_both_families (DoRelease ident) = True"
| "requests_both_families (DoPurge ident) = True"

definition pairs_for :: "Allocator \<Rightarrow> WorkloadIdentity \<Rightarrow> bool" where
  "pairs_for st ident =
     ((\<forall>rs. bound st ident = Some rs \<longrightarrow>
         dual_stack_pair rs \<and> Lookup (retention st) ident = None) \<and>
      (\<forall>kept. Lookup (retention st) ident = Some kept \<longrightarrow> dual_stack_pair kept))"

subsection \<open>The workloads and subnets of the tests\<close>

definition overlay_net :: Network where
  "overlay_net = \<lparr> network_name = ''overlay'', network_type = Overlay,
                    network_families = [IPv4, IPv6] \<rparr>"

definition overlay_v4 :: Subnet where
  "overlay_v4 = \<lparr> subnet_name = ''overlay-v4'', parent = overlay_net, subnet_family = IPv4,
                   cidr = [100, 101, 102, 103], excluded = {100} \<rparr>"

definition overlay_v6 :: Subnet where
  "overlay_v6 = \<lparr> subnet_name = ''overlay-v6'', parent = overlay_net, subnet_family = IPv6,
                   cidr = [600, 601, 602, 603], excluded = {} \<rparr>"

definition fake_set :: ReferredObject where
  "fake_set = \<lparr> ref_kind = ''StatefulSet'', ref_name = ''fake'', ref_uid = ''uid-set'' \<rparr>"

definition pod3 :: Workload where
  "pod3 = \<lparr> pod_name = ''pod-3'', pod_uid = ''uid-a'', pod_node = ''node3'',
             owner = Some fake_set \<rparr>"

definition pod3_again :: Workload where
  "pod3_again = \<lparr> pod_name = ''pod-3'', pod_uid = ''uid-b'', pod_node = ''node1'',
                   owner = Some fake_set \<rparr>"

definition pod5 :: Workload where
  "pod5 = \<lparr> pod_name = ''pod-5'', pod_uid = ''uid-c'', pod_node = ''node1'',
             owner = Some fake_set \<rparr>"

definition dual_stack :: Criteria where
  "dual_stack = \<lparr> networkType = Overlay, families = [IPv4, IPv6] \<rparr>"

definition ipv4_only :: Criteria where
  "ipv4_only = \<lparr> networkType = Overlay, families = [IPv4] \<rparr>"

section \<open>Properties of CheckWithTimeout\<close>

lemmas lan_simps = lan_externals_def eth0_def pod_ip_def gateway_ip_def
  gateway_station_def squatter_station_def ParseIP_0_0_0_0_def
  gateway_failed_msg_def duplicated_msg_def gratuitous_failed_msg_def
  show_byte_def hex_byte_def digit_def ip_text_def
  lan_silent_def lan_healthy_def lan_squatted_def lan_link_down_def lan_probe_blocked_def

text \<open>
  Claim C3. When the gateway probe fails (the first \<^verbatim>\<open>PingOverIface\<close> returns an error),
  the function returns the error built from the first format string, the gateway probe is
  the only call into \<^verbatim>\<open>arping\<close> that was made (no duplicate-address probe, no
  announcement), and the world is the one the gateway probe left.
\<close>

theorem gateway_probe_failure_fails_fast:
  assumes "PingOverIface x srcPod gateway (Some i) timeout w = ((hw, Some err), w1)"
  shows "CheckWithTimeout x (Some i) srcPod gateway timeout w =
           (Inr (Some (errorString
              (gateway_failed_msg (IP_String x srcPod) (IP_String x gateway) err (Name i)))),
            [PingCall srcPod gateway (Some i) timeout], w1)"
  using assms by (simp add: CheckWithTimeout_def)

theorem gateway_probe_failure_fails_fast_witness:
  "PingOverIface lan_externals pod_ip gateway_ip (Some eth0) 1000 lan_silent =
     (([], Some ''timeout''), lan_silent) \<and>
   CheckWithTimeout lan_externals (Some eth0) pod_ip gateway_ip 1000 lan_silent =
     (Inr (Some (errorString
        ''arp resolve from pod 10.0.0.5 to gateway 10.0.0.1 failed: timeout, vlan network seems not working, please check the setting of eth0's upper physical switch port first'')),
      [PingCall pod_ip gateway_ip (Some eth0) 1000], lan_silent)"
proof -
  have h: "PingOverIface lan_externals pod_ip gateway_ip (Some eth0) 1000 lan_silent =
             (([], Some ''timeout''), lan_silent)"
    by (simp add: lan_simps)
  have m: "gateway_failed_msg (IP_String lan_externals pod_ip) (IP_String lan_externals gateway_ip)
             ''timeout'' (Name eth0) =
           ''arp resolve from pod 10.0.0.5 to gateway 10.0.0.1 failed: timeout, vlan network seems not working, please check the setting of eth0's upper physical switch port first''"
    by (simp add: lan_simps)
  from h gateway_probe_failure_fails_fast [OF h] m show ?thesis
    by simp
qed

text \<open>
  Claim C2, as stated, fails in one respect: on a segment where another station holds the
  address, the duplicate-address probe is answered and the function returns an error, but
  the error is the text built by \<^verbatim>\<open>fmt.Errorf\<close>, not a \<open>DuplicateAddress\<close> value carrying
  the responder's hardware address.
\<close>

theorem duplicate_reply_is_not_DuplicateAddress_counterexample:
  "PingOverIface lan_externals ParseIP_0_0_0_0 pod_ip (Some eth0) 1000 lan_squatted =
     (([2, 0, 0, 0, 0, 7], None), lan_squatted) \<and>
   fst (CheckWithTimeout lan_externals (Some eth0) pod_ip gateway_ip 1000 lan_squatted) =
     Inr (Some (errorString
       ''pod ip 10.0.0.5 duplicated, please check if ip 10.0.0.5 is occupied by other machines or containers, another hw addr is 02:00:00:00:00:07'')) \<and>
   fst (CheckWithTimeout lan_externals (Some eth0) pod_ip gateway_ip 1000 lan_squatted) \<noteq>
     Inr (Some (DuplicateAddress pod_ip [2, 0, 0, 0, 0, 7]))"
  by (simp add: CheckWithTimeout_def lan_simps)

text \<open>
  Claim C2, amended. Once the gateway has answered, a reply to the duplicate-address probe
  (sender \<open>0.0.0.0\<close>, target \<open>srcPod\<close>) makes the function return, after exactly the
  two probes and in the world the second probe left, the error built from the second
  format string: a text that names the source address and ends with the responder's
  hardware address. An unanswered probe (the call returns an error) makes it go on to the
  gratuitous announcement: the third call is \<^verbatim>\<open>GratuitousOverIface\<close> in the world the
  probe left, and its outcome is the outcome of the function.
\<close>

theorem duplicate_probe_reply_is_failure:
  assumes "PingOverIface x srcPod gateway ifi timeout w = ((hw1, None), w1)"
  shows "(PingOverIface x ParseIP_0_0_0_0 srcPod ifi timeout w1 = ((hw, None), w2) \<longrightarrow>
            CheckWithTimeout x ifi srcPod gateway timeout w =
              (Inr (Some (errorString
                 (duplicated_msg (IP_String x srcPod) (HardwareAddr_String x hw)))),
               [PingCall srcPod gateway ifi timeout,
                PingCall ParseIP_0_0_0_0 srcPod ifi timeout], w2) \<and>
            sublist (IP_String x srcPod)
              (duplicated_msg (IP_String x srcPod) (HardwareAddr_String x hw)) \<and>
            suffix (HardwareAddr_String x hw)
              (duplicated_msg (IP_String x srcPod) (HardwareAddr_String x hw))) \<and>
         (PingOverIface x ParseIP_0_0_0_0 srcPod ifi timeout w1 = ((hw, Some e), w2) \<longrightarrow>
            CheckWithTimeout x ifi srcPod gateway timeout w =
              (case GratuitousOverIface x srcPod ifi w2 of
                 (Some err, w3) \<Rightarrow>
                   (Inr (Some (errorString (gratuitous_failed_msg (IP_String x srcPod) err))),
                    [PingCall srcPod gateway ifi timeout,
                     PingCall ParseIP_0_0_0_0 srcPod ifi timeout,
                     GratuitousCall srcPod ifi], w3)
               | (None, w3) \<Rightarrow>
                   (Inr None,
                    [PingCall srcPod gateway ifi timeout,
                     PingCall ParseIP_0_0_0_0 srcPod ifi timeout,
                     GratuitousCall srcPod ifi], w3)))"
proof (intro conjI impI)
  assume dup: "PingOverIface x ParseIP_0_0_0_0 srcPod ifi timeout w1 = ((hw, None), w2)"
  show "CheckWithTimeout x ifi srcPod gateway timeout w =
              (Inr (Some (errorString
                 (duplicated_msg (IP_String x srcPod) (HardwareAddr_String x hw)))),
               [PingCall srcPod gateway ifi timeout,
                PingCall ParseIP_0_0_0_0 srcPod ifi timeout], w2)"
    using assms dup by (simp add: CheckWithTimeout_def)
  show "sublist (IP_String x srcPod)
              (duplicated_msg (IP_String x srcPod) (HardwareAddr_String x hw))"
    unfolding duplicated_msg_def sublist_def by (metis append.assoc)
  show "suffix (HardwareAddr_String x hw)
              (duplicated_msg (IP_String x srcPod) (HardwareAddr_String x hw))"
    unfolding duplicated_msg_def suffix_def by (metis append.assoc)
next
  assume quiet: "PingOverIface x ParseIP_0_0_0_0 srcPod ifi timeout w1 = ((hw, Some e), w2)"
  show "CheckWithTimeout x ifi srcPod gateway timeout w =
              (case GratuitousOverIface x srcPod ifi w2 of
                 (Some err, w3) \<Rightarrow>
                   (Inr (Some (errorString (gratuitous_failed_msg (IP_String x srcPod) err))),
                    [PingCall srcPod gateway ifi timeout,
                     PingCall ParseIP_0_0_0_0 srcPod ifi timeout,
                     GratuitousCall srcPod ifi], w3)
               | (None, w3) \<Rightarrow>
                   (Inr None,
                    [PingCall srcPod gateway ifi timeout,
                     PingCall ParseIP_0_0_0_0 srcPod ifi timeout,
                     GratuitousCall srcPod ifi], w3))"
    using assms quiet by (simp add: CheckWithTimeout_def split: prod.splits option.splits)
qed

theorem duplicate_probe_reply_is_failure_witness:
  "CheckWithTimeout lan_externals (Some eth0) pod_ip gateway_ip 1000 lan_squatted =
     (Inr (Some (errorString
        ''pod ip 10.0.0.5 duplicated, please check if ip 10.0.0.5 is occupied by other machines or containers, another hw addr is 02:00:00:00:00:07'')),
      [PingCall pod_ip gateway_ip (Some eth0) 1000,
       PingCall ParseIP_0_0_0_0 pod_ip (Some eth0) 1000], lan_squatted) \<and>
   sublist ''10.0.0.5''
     ''pod ip 10.0.0.5 duplicated, please check if ip 10.0.0.5 is occupied by other machines or containers, another hw addr is 02:00:00:00:00:07'' \<and>
   suffix ''02:00:00:00:00:07''
     ''pod ip 10.0.0.5 duplicated, please check if ip 10.0.0.5 is occupied by other machines or containers, another hw addr is 02:00:00:00:00:07'' \<and>
   CheckWithTimeout lan_externals (Some eth0) pod_ip gateway_ip 1000 lan_healthy =
     (Inr None,
      [PingCall pod_ip gateway_ip (Some eth0) 1000,
       PingCall ParseIP_0_0_0_0 pod_ip (Some eth0) 1000,
       GratuitousCall pod_ip (Some eth0)], lan_healthy) \<and>
   CheckWithTimeout lan_externals (Some eth0) pod_ip gateway_ip 1000 lan_link_down =
     (Inr (Some (errorString ''send gratuitous arp for pod 10.0.0.5 failed network is down'')),
      [PingCall pod_ip gateway_ip (Some eth0) 1000,
       PingCall ParseIP_0_0_0_0 pod_ip (Some eth0) 1000,
       GratuitousCall pod_ip (Some eth0)], lan_link_down)"
proof -
  have g1: "PingOverIface lan_externals pod_ip gateway_ip (Some eth0) 1000 lan_squatted =
              (([2, 0, 0, 0, 0, 9], None), lan_squatted)"
    by (simp add: lan_simps)
  have d1: "PingOverIface lan_externals ParseIP_0_0_0_0 pod_ip (Some eth0) 1000 lan_squatted =
              (([2, 0, 0, 0, 0, 7], None), lan_squatted)"
    by (simp add: lan_simps)
  have g2: "PingOverIface lan_externals pod_ip gateway_ip (Some eth0) 1000 lan_healthy =
              (([2, 0, 0, 0, 0, 9], None), lan_healthy)"
    by (simp add: lan_simps)
  have d2: "PingOverIface lan_externals ParseIP_0_0_0_0 pod_ip (Some eth0) 1000 lan_healthy =
              (([], Some ''timeout''), lan_healthy)"
    by (simp add: lan_simps)
  have a2: "GratuitousOverIface lan_externals pod_ip (Some eth0) lan_healthy = (None, lan_healthy)"
    by (simp add: lan_simps)
  have g3: "PingOverIface lan_externals pod_ip gateway_ip (Some eth0) 1000 lan_link_down =
              (([2, 0, 0, 0, 0, 9], None), lan_link_down)"
    by (simp add: lan_simps)
  have d3: "PingOverIface lan_externals ParseIP_0_0_0_0 pod_ip (Some eth0) 1000 lan_link_down =
              (([], Some ''timeout''), lan_link_down)"
    by (simp add: lan_simps)
  have a3: "GratuitousOverIface lan_externals pod_ip (Some eth0) lan_link_down =
              (Some ''network is down'', lan_link_down)"
    by (simp add: lan_simps)
  have s: "HardwareAddr_String lan_externals [2, 0, 0, 0, 0, 7] = ''02:00:00:00:00:07''"
    by (simp add: lan_simps)
  have i: "IP_String lan_externals pod_ip = ''10.0.0.5''"
    by (simp add: lan_simps)
  have m: "duplicated_msg ''10.0.0.5'' ''02:00:00:00:00:07'' = ''pod ip 10.0.0.5 duplicated, please check if ip 10.0.0.5 is occupied by other machines or containers, another hw addr is 02:00:00:00:00:07''"
    by (simp add: duplicated_msg_def)
  have n: "gratuitous_failed_msg ''10.0.0.5'' ''network is down'' =
             ''send gratuitous arp for pod 10.0.0.5 failed network is down''"
    by (simp add: gratuitous_failed_msg_def)
  from duplicate_probe_reply_is_failure [OF g1, of "[2, 0, 0, 0, 0, 7]" lan_squatted] d1
       duplicate_probe_reply_is_failure [OF g2, of "[]" lan_healthy "''timeout''"] d2 a2
       duplicate_probe_reply_is_failure [OF g3, of "[]" lan_link_down "''timeout''"] d3 a3
  show ?thesis
    by (simp only: s i m n simp_thms prod.case option.case)
qed

text \<open>
  Claim C4. The function returns nil exactly when the gateway probe is answered, the
  duplicate-address probe is not (it returns an error) and the announcement is sent
  without error. When the first two steps are favourable and the announcement fails, the
  function returns an error: the failure is not swallowed.
\<close>

theorem success_iff_all_three_steps_favourable:
  "(fst (CheckWithTimeout x ifi srcPod gateway timeout w) = Inr None \<longleftrightarrow>
      (\<exists>hw1 w1 hw2 e2 w2 w3.
         PingOverIface x srcPod gateway ifi timeout w = ((hw1, None), w1) \<and>
         PingOverIface x ParseIP_0_0_0_0 srcPod ifi timeout w1 = ((hw2, Some e2), w2) \<and>
         GratuitousOverIface x srcPod ifi w2 = (None, w3))) \<and>
   (\<forall>hw1 w1 hw2 e2 w2 e3 w3.
      PingOverIface x srcPod gateway ifi timeout w = ((hw1, None), w1) \<and>
      PingOverIface x ParseIP_0_0_0_0 srcPod ifi timeout w1 = ((hw2, Some e2), w2) \<and>
      GratuitousOverIface x srcPod ifi w2 = (Some e3, w3) \<longrightarrow>
      fst (CheckWithTimeout x ifi srcPod gateway timeout w) =
        Inr (Some (errorString (gratuitous_failed_msg (IP_String x srcPod) e3))))"
proof (intro conjI allI impI)
  show "fst (CheckWithTimeout x ifi srcPod gateway timeout w) = Inr None \<longleftrightarrow>
      (\<exists>hw1 w1 hw2 e2 w2 w3.
         PingOverIface x srcPod gateway ifi timeout w = ((hw1, None), w1) \<and>
         PingOverIface x ParseIP_0_0_0_0 srcPod ifi timeout w1 = ((hw2, Some e2), w2) \<and>
         GratuitousOverIface x srcPod ifi w2 = (None, w3))"
    by (auto simp: CheckWithTimeout_def split: prod.splits option.splits)
next
  fix hw1 w1 hw2 e2 w2 e3 w3
  assume "PingOverIface x srcPod gateway ifi timeout w = ((hw1, None), w1) \<and>
      PingOverIface x ParseIP_0_0_0_0 srcPod ifi timeout w1 = ((hw2, Some e2), w2) \<and>
      GratuitousOverIface x srcPod ifi w2 = (Some e3, w3)"
  then show "fst (CheckWithTimeout x ifi srcPod gateway timeout w) =
        Inr (Some (errorString (gratuitous_failed_msg (IP_String x srcPod) e3)))"
    by (simp add: CheckWithTimeout_def)
qed

theorem success_iff_all_three_steps_favourable_witness:
  "fst (CheckWithTimeout lan_externals (Some eth0) pod_ip gateway_ip 1000 lan_healthy) = Inr None \<and>
   fst (CheckWithTimeout lan_externals (Some eth0) pod_ip gateway_ip 1000 lan_link_down) =
     Inr (Some (errorString ''send gratuitous arp for pod 10.0.0.5 failed network is down''))"
proof -
  have g: "PingOverIface lan_externals pod_ip gateway_ip (Some eth0) 1000 lan_healthy =
              (([2, 0, 0, 0, 0, 9], None), lan_healthy)"
    by (simp add: lan_simps)
  have d: "PingOverIface lan_externals ParseIP_0_0_0_0 pod_ip (Some eth0) 1000 lan_healthy =
              (([], Some ''timeout''), lan_healthy)"
    by (simp add: lan_simps)
  have a: "GratuitousOverIface lan_externals pod_ip (Some eth0) lan_healthy = (None, lan_healthy)"
    by (simp add: lan_simps)
  have g': "PingOverIface lan_externals pod_ip gateway_ip (Some eth0) 1000 lan_link_down =
              (([2, 0, 0, 0, 0, 9], None), lan_link_down)"
    by (simp add: lan_simps)
  have d': "PingOverIface lan_externals ParseIP_0_0_0_0 pod_ip (Some eth0) 1000 lan_link_down =
              (([], Some ''timeout''), lan_link_down)"
    by (simp add: lan_simps)
  have a': "GratuitousOverIface lan_externals pod_ip (Some eth0) lan_link_down =
              (Some ''network is down'', lan_link_down)"
    by (simp add: lan_simps)
  have m: "gratuitous_failed_msg (IP_String lan_externals pod_ip) ''network is down'' =
             ''send gratuitous arp for pod 10.0.0.5 failed network is down''"
    by (simp add: lan_simps)
  have ok: "fst (CheckWithTimeout lan_externals (Some eth0) pod_ip gateway_ip 1000 lan_healthy) = Inr None"
    using success_iff_all_three_steps_favourable
            [of lan_externals "Some eth0" pod_ip gateway_ip 1000 lan_healthy] g d a
    by blast
  have bad: "fst (CheckWithTimeout lan_externals (Some eth0) pod_ip gateway_ip 1000 lan_link_down) =
     Inr (Some (errorString (gratuitous_failed_msg (IP_String lan_externals pod_ip) ''network is down'')))"
    using success_iff_all_three_steps_favourable
            [of lan_externals "Some eth0" pod_ip gateway_ip 1000 lan_link_down] g' d' a'
    by blast
  from ok bad m show ?thesis by simp
qed

text \<open>
  Claim C10. In the duplicate-address step the function only tests whether the probe
  returned an error, not which one. Whatever the error \<open>e\<close> is (a timeout, a failed send,
  anything else), the announcement is attempted and the result is decided by the
  announcement alone: the right-hand side mentions neither \<open>e\<close> nor \<open>hw2\<close>.
\<close>

theorem duplicate_probe_error_counts_as_no_duplicate:
  assumes "PingOverIface x srcPod gateway ifi timeout w = ((hw1, None), w1)"
    and "PingOverIface x ParseIP_0_0_0_0 srcPod ifi timeout w1 = ((hw2, Some e), w2)"
  shows "CheckWithTimeout x ifi srcPod gateway timeout w =
           (case GratuitousOverIface x srcPod ifi w2 of
              (Some err, w3) \<Rightarrow>
                (Inr (Some (errorString (gratuitous_failed_msg (IP_String x srcPod) err))),
                 [PingCall srcPod gateway ifi timeout,
                  PingCall ParseIP_0_0_0_0 srcPod ifi timeout,
                  GratuitousCall srcPod ifi], w3)
            | (None, w3) \<Rightarrow>
                (Inr None,
                 [PingCall srcPod gateway ifi timeout,
                  PingCall ParseIP_0_0_0_0 srcPod ifi timeout,
                  GratuitousCall srcPod ifi], w3))"
  using assms by (simp add: CheckWithTimeout_def split: prod.splits option.splits)

theorem duplicate_probe_error_counts_as_no_duplicate_witness:
  "map_of (hosts lan_probe_blocked) pod_ip = Some [2, 0, 0, 0, 0, 7] \<and>
   PingOverIface lan_externals ParseIP_0_0_0_0 pod_ip (Some eth0) 1000 lan_probe_blocked =
     (([], Some ''sendto: operation not permitted''), lan_probe_blocked) \<and>
   CheckWithTimeout lan_externals (Some eth0) pod_ip gateway_ip 1000 lan_probe_blocked =
     (Inr None,
      [PingCall pod_ip gateway_ip (Some eth0) 1000,
       PingCall ParseIP_0_0_0_0 pod_ip (Some eth0) 1000,
       GratuitousCall pod_ip (Some eth0)], lan_probe_blocked)"
proof -
  have h: "map_of (hosts lan_probe_blocked) pod_ip = Some [2, 0, 0, 0, 0, 7]"
    by (simp add: lan_simps)
  have g: "PingOverIface lan_externals pod_ip gateway_ip (Some eth0) 1000 lan_probe_blocked =
              (([2, 0, 0, 0, 0, 9], None), lan_probe_blocked)"
    by (simp add: lan_simps)
  have d: "PingOverIface lan_externals ParseIP_0_0_0_0 pod_ip (Some eth0) 1000 lan_probe_blocked =
              (([], Some ''sendto: operation not permitted''), lan_probe_blocked)"
    by (simp add: lan_simps)
  have a: "GratuitousOverIface lan_externals pod_ip (Some eth0) lan_probe_blocked =
             (None, lan_probe_blocked)"
    by (simp add: lan_simps)
  from duplicate_probe_error_counts_as_no_duplicate [OF g d] a h d show ?thesis
    by simp
qed

text \<open>
  Claim C9, as stated, fails: the error returned for a duplicate address is a value built
  by \<^verbatim>\<open>fmt.Errorf\<close>, a formatted text, not one of the structured variants.
\<close>

theorem errors_are_structured_counterexample:
  "\<not> (\<forall>e. fst (CheckWithTimeout lan_externals (Some eth0) pod_ip gateway_ip 1000 lan_squatted) =
              Inr (Some e) \<longrightarrow> is_structured e)"
proof
  assume all: "\<forall>e. fst (CheckWithTimeout lan_externals (Some eth0) pod_ip gateway_ip 1000 lan_squatted) =
              Inr (Some e) \<longrightarrow> is_structured e"
  have "fst (CheckWithTimeout lan_externals (Some eth0) pod_ip gateway_ip 1000 lan_squatted) =
          Inr (Some (errorString (duplicated_msg ''10.0.0.5'' ''02:00:00:00:00:07'')))"
    by (simp add: CheckWithTimeout_def lan_externals_def eth0_def pod_ip_def gateway_ip_def
        gateway_station_def squatter_station_def ParseIP_0_0_0_0_def lan_squatted_def
        show_byte_def hex_byte_def digit_def ip_text_def)
  with all have "is_structured (errorString (duplicated_msg ''10.0.0.5'' ''02:00:00:00:00:07''))"
    by blast
  then show False by simp
qed

text \<open>
  Claim C9, amended. Every error the function returns is an \<open>errorString\<close>: an
  unstructured text. The text embeds the context of the failing step. It always contains
  the source address; for a failed gateway probe also the gateway address, the text of
  the probe's error and the interface name; for a duplicate the responder's hardware
  address; for a failed announcement the text of the send error.
\<close>

theorem errors_are_formatted_messages:
  assumes "fst (CheckWithTimeout x (Some i) srcPod gateway timeout w) = Inr (Some e)"
  shows "\<exists>m. e = errorString m \<and> \<not> is_structured e \<and> sublist (IP_String x srcPod) m \<and>
           ((\<exists>hw c w1. PingOverIface x srcPod gateway (Some i) timeout w = ((hw, Some c), w1) \<and>
                m = gateway_failed_msg (IP_String x srcPod) (IP_String x gateway) c (Name i) \<and>
                sublist (IP_String x gateway) m \<and> sublist c m \<and> sublist (Name i) m) \<or>
            (\<exists>hw1 w1 hw w2.
                PingOverIface x srcPod gateway (Some i) timeout w = ((hw1, None), w1) \<and>
                PingOverIface x ParseIP_0_0_0_0 srcPod (Some i) timeout w1 = ((hw, None), w2) \<and>
                m = duplicated_msg (IP_String x srcPod) (HardwareAddr_String x hw) \<and>
                sublist (HardwareAddr_String x hw) m) \<or>
            (\<exists>hw1 w1 hw2 e2 w2 c w3.
                PingOverIface x srcPod gateway (Some i) timeout w = ((hw1, None), w1) \<and>
                PingOverIface x ParseIP_0_0_0_0 srcPod (Some i) timeout w1 = ((hw2, Some e2), w2) \<and>
                GratuitousOverIface x srcPod (Some i) w2 = (Some c, w3) \<and>
                m = gratuitous_failed_msg (IP_String x srcPod) c \<and>
                sublist c m))"
proof -
  let ?r = "CheckWithTimeout x (Some i) srcPod gateway timeout w"
  obtain r1 c1 w1 where p1: "PingOverIface x srcPod gateway (Some i) timeout w = ((r1, c1), w1)"
    by (metis surj_pair)
  show ?thesis
  proof (cases c1)
    case (Some c)
    with p1 assms have e: "e = errorString
        (gateway_failed_msg (IP_String x srcPod) (IP_String x gateway) c (Name i))"
      by (simp add: CheckWithTimeout_def)
    have "sublist (IP_String x srcPod)
            (gateway_failed_msg (IP_String x srcPod) (IP_String x gateway) c (Name i))"
         "sublist (IP_String x gateway)
            (gateway_failed_msg (IP_String x srcPod) (IP_String x gateway) c (Name i))"
         "sublist c
            (gateway_failed_msg (IP_String x srcPod) (IP_String x gateway) c (Name i))"
         "sublist (Name i)
            (gateway_failed_msg (IP_String x srcPod) (IP_String x gateway) c (Name i))"
      unfolding gateway_failed_msg_def sublist_def by (metis append.assoc)+
    with e p1 Some show ?thesis by auto
  next
    case None
    note gw = None
    obtain r2 c2 w2 where
      p2: "PingOverIface x ParseIP_0_0_0_0 srcPod (Some i) timeout w1 = ((r2, c2), w2)"
      by (metis surj_pair)
    show ?thesis
    proof (cases c2)
      case None
      with p1 p2 gw assms have e: "e = errorString
          (duplicated_msg (IP_String x srcPod) (HardwareAddr_String x r2))"
        by (simp add: CheckWithTimeout_def)
      have "sublist (IP_String x srcPod)
              (duplicated_msg (IP_String x srcPod) (HardwareAddr_String x r2))"
           "sublist (HardwareAddr_String x r2)
              (duplicated_msg (IP_String x srcPod) (HardwareAddr_String x r2))"
        unfolding duplicated_msg_def sublist_def by (metis append.assoc append_Nil2)+
      with e p1 p2 gw None show ?thesis by auto
    next
      case (Some e2)
      obtain c3 w3 where p3: "GratuitousOverIface x srcPod (Some i) w2 = (c3, w3)"
        by (metis surj_pair)
      from p1 p2 p3 gw Some assms obtain c where c3: "c3 = Some c"
        by (cases c3) (simp_all add: CheckWithTimeout_def)
      with p1 p2 p3 gw Some assms have e: "e = errorString
          (gratuitous_failed_msg (IP_String x srcPod) c)"
        by (simp add: CheckWithTimeout_def)
      have "sublist (IP_String x srcPod) (gratuitous_failed_msg (IP_String x srcPod) c)"
           "sublist c (gratuitous_failed_msg (IP_String x srcPod) c)"
        unfolding gratuitous_failed_msg_def sublist_def by (metis append.assoc append_Nil2)+
      with e p1 p2 p3 gw Some c3 show ?thesis by auto
    qed
  qed
qed

theorem errors_are_formatted_messages_witness:
  "fst (CheckWithTimeout lan_externals (Some eth0) pod_ip gateway_ip 1000 lan_silent) =
     Inr (Some (errorString
        ''arp resolve from pod 10.0.0.5 to gateway 10.0.0.1 failed: timeout, vlan network seems not working, please check the setting of eth0's upper physical switch port first'')) \<and>
   (\<exists>m. errorString
        ''arp resolve from pod 10.0.0.5 to gateway 10.0.0.1 failed: timeout, vlan network seems not working, please check the setting of eth0's upper physical switch port first'' = errorString m \<and>
      sublist ''10.0.0.5'' m \<and> sublist ''10.0.0.1'' m \<and> sublist ''timeout'' m \<and> sublist ''eth0'' m)"
proof -
  have r: "fst (CheckWithTimeout lan_externals (Some eth0) pod_ip gateway_ip 1000 lan_silent) =
     Inr (Some (errorString
        ''arp resolve from pod 10.0.0.5 to gateway 10.0.0.1 failed: timeout, vlan network seems not working, please check the setting of eth0's upper physical switch port first''))"
    by (simp add: CheckWithTimeout_def lan_simps)
  have p: "PingOverIface lan_externals pod_ip gateway_ip (Some eth0) 1000 lan_silent =
             (([], Some ''timeout''), lan_silent)"
    by (simp add: lan_simps)
  have s: "IP_String lan_externals pod_ip = ''10.0.0.5''"
          "IP_String lan_externals gateway_ip = ''10.0.0.1''" "Name eth0 = ''eth0''"
    by (simp_all add: lan_simps)
  from errors_are_formatted_messages [OF r] p s r show ?thesis
    by auto
qed


subsection \<open>Latency\<close>

text \<open>
  Time passes inside the calls of package \<^verbatim>\<open>arping\<close>: the world carries a clock, and
  how long a call may take is a hypothesis about the package.

  Claim C5, as stated, fails: the announcement is not bounded by the timeout, which
  \<^verbatim>\<open>GratuitousOverIface(srcPod, ifi)\<close> is not even given. With an \<^verbatim>\<open>arping\<close> whose probes
  keep to their timeout of 1000 ns and whose send takes 5000 ns, the third step alone
  takes longer than the timeout and the call takes 6000 ns, more than three timeouts.
\<close>

theorem latency_counterexample:
  "PingOverIface slow_announce_externals pod_ip gateway_ip (Some eth0) 1000 0 =
     (([2, 0, 0, 0, 0, 9], None), 0) \<and>
   PingOverIface slow_announce_externals ParseIP_0_0_0_0 pod_ip (Some eth0) 1000 0 =
     (([], Some ''timeout''), 1000) \<and>
   GratuitousOverIface slow_announce_externals pod_ip (Some eth0) 1000 = (None, 6000) \<and>
   CheckWithTimeout slow_announce_externals (Some eth0) pod_ip gateway_ip 1000 0 =
     (Inr None,
      [PingCall pod_ip gateway_ip (Some eth0) 1000,
       PingCall ParseIP_0_0_0_0 pod_ip (Some eth0) 1000,
       GratuitousCall pod_ip (Some eth0)], 6000) \<and>
   nanoseconds 1000 < 6000 - 1000 \<and>
   0 + 3 * nanoseconds 1000 < 6000"
  by (simp add: CheckWithTimeout_def slow_announce_externals_def nanoseconds_def pod_ip_def
      gateway_ip_def ParseIP_0_0_0_0_def)

text \<open>
  Claim C5, amended. The function makes at most three calls, of which at most two are
  probes; every probe is given the timeout of the function, unchanged, and the
  announcement is given none. So if every probe with this timeout returns within the
  timeout, and the announcement returns within \<open>g\<close>, the function returns within two
  timeouts plus \<open>g\<close>.
\<close>

theorem latency_is_two_timeouts_and_the_announcement:
  assumes ping: "\<And>s d i w r w'.
        PingOverIface x s d i timeout w = (r, w') \<Longrightarrow> clock w' \<le> clock w + nanoseconds timeout"
    and announce: "\<And>s i w r w'.
        GratuitousOverIface x s i w = (r, w') \<Longrightarrow> clock w' \<le> clock w + g"
  shows "clock (snd (snd (CheckWithTimeout x ifi srcPod gateway timeout w))) \<le>
           clock w + 2 * nanoseconds timeout + g \<and>
         length (fst (snd (CheckWithTimeout x ifi srcPod gateway timeout w))) \<le> 3 \<and>
         list_all (\<lambda>c. case c of PingCall s d i t \<Rightarrow> t = timeout | GratuitousCall s i \<Rightarrow> True)
           (fst (snd (CheckWithTimeout x ifi srcPod gateway timeout w))) \<and>
         length (filter (\<lambda>c. case c of PingCall s d i t \<Rightarrow> True | GratuitousCall s i \<Rightarrow> False)
           (fst (snd (CheckWithTimeout x ifi srcPod gateway timeout w)))) \<le> 2"
proof -
  obtain r1 c1 w1 where p1: "PingOverIface x srcPod gateway ifi timeout w = ((r1, c1), w1)"
    by (metis surj_pair)
  obtain r2 c2 w2 where
    p2: "PingOverIface x ParseIP_0_0_0_0 srcPod ifi timeout w1 = ((r2, c2), w2)"
    by (metis surj_pair)
  obtain c3 w3 where p3: "GratuitousOverIface x srcPod ifi w2 = (c3, w3)"
    by (metis surj_pair)
  from ping [OF p1] have t1: "clock w1 \<le> clock w + nanoseconds timeout" .
  from ping [OF p2] have t2: "clock w2 \<le> clock w1 + nanoseconds timeout" .
  from announce [OF p3] have t3: "clock w3 \<le> clock w2 + g" .
  from t1 t2 t3 p1 p2 p3 show ?thesis
    by (cases c1; cases c2; cases c3; cases ifi) (simp_all add: CheckWithTimeout_def)
qed

theorem latency_is_two_timeouts_and_the_announcement_witness:
  "snd (snd (CheckWithTimeout slow_announce_externals (Some eth0) pod_ip gateway_ip 1000 0)) \<le>
     0 + 2 * nanoseconds 1000 + 5000 \<and>
   snd (snd (CheckWithTimeout slow_announce_externals (Some eth0) pod_ip gateway_ip 1000 0)) = 6000 \<and>
   fst (snd (CheckWithTimeout slow_announce_externals (Some eth0) pod_ip gateway_ip 1000 0)) =
     [PingCall pod_ip gateway_ip (Some eth0) 1000,
      PingCall ParseIP_0_0_0_0 pod_ip (Some eth0) 1000,
      GratuitousCall pod_ip (Some eth0)]"
proof -
  have ping: "\<And>s d i w r w'.
      PingOverIface slow_announce_externals s d i 1000 w = (r, w') \<Longrightarrow>
      w' \<le> w + nanoseconds 1000"
    by (auto simp: slow_announce_externals_def split: if_splits)
  have announce: "\<And>s i w r w'.
      GratuitousOverIface slow_announce_externals s i w = (r, w') \<Longrightarrow> w' \<le> w + 5000"
    by (auto simp: slow_announce_externals_def)
  have run: "CheckWithTimeout slow_announce_externals (Some eth0) pod_ip gateway_ip 1000 0 =
     (Inr None,
      [PingCall pod_ip gateway_ip (Some eth0) 1000,
       PingCall ParseIP_0_0_0_0 pod_ip (Some eth0) 1000,
       GratuitousCall pod_ip (Some eth0)], 6000)"
    by (simp add: CheckWithTimeout_def slow_announce_externals_def nanoseconds_def pod_ip_def
        gateway_ip_def ParseIP_0_0_0_0_def)
  from latency_is_two_timeouts_and_the_announcement
         [of slow_announce_externals 1000 "\<lambda>w. w" 5000 "Some eth0" pod_ip gateway_ip 0,
          OF ping announce] run
  show ?thesis by simp
qed

section \<open>Properties of the RemoteVtep handler\<close>

lemma isIPListEqual_iff: "isIPListEqual a b \<longleftrightarrow> a = b"
  by (induction a b rule: isIPListEqual.induct) simp_all

text \<open>
  Claim C1. For an Update event whose two objects are RemoteVtep values, the handler
  leaves the queue untouched when the VTEP address, the VTEP hardware address, the value
  of the node-local address list annotation and the endpoint address list are all equal
  in the old and the new object, and otherwise calls \<^verbatim>\<open>Add\<close> exactly once, with the
  node-recompute item. The endpoint lists are equal when they have the same length and
  agree at every position; the node-local address list is carried by an annotation and is
  compared as the string the annotation holds (an absent annotation reads as the empty
  string).
\<close>

theorem Update_enqueues_once_iff_a_compared_field_differs:
  "Update c \<lparr> ObjectOld = RemoteVtepPtr (Some old), ObjectNew = RemoteVtepPtr (Some new) \<rparr> q =
     Inr (if IP (VTEPInfo (Spec old)) = IP (VTEPInfo (Spec new)) \<and>
             MAC (VTEPInfo (Spec old)) = MAC (VTEPInfo (Spec new)) \<and>
             index_map (Annotations old) (AnnotationNodeLocalVxlanIPList c) =
               index_map (Annotations new) (AnnotationNodeLocalVxlanIPList c) \<and>
             length (EndpointIPList (Spec old)) = length (EndpointIPList (Spec new)) \<and>
             (\<forall>k < length (EndpointIPList (Spec old)).
                 EndpointIPList (Spec old) ! k = EndpointIPList (Spec new) ! k)
          then q
          else q @ [ActionReconcileNode c])"
  by (simp add: Update_def Add_def isIPListEqual_iff list_eq_iff_nth_eq)

theorem Update_enqueues_once_iff_a_compared_field_differs_witness:
  "Update demo_consts
     \<lparr> ObjectOld = RemoteVtepPtr (Some (peer ''10.1.0.1'' ''aa:bb'' (Some ''172.16.0.1,172.16.0.2'') [''192.168.0.1'', ''192.168.0.2''])),
       ObjectNew = RemoteVtepPtr (Some (peer ''10.1.0.1'' ''aa:bb'' (Some ''172.16.0.1,172.16.0.2'') [''192.168.0.2'', ''192.168.0.1''])) \<rparr>
     [] = Inr [''ReconcileNode''] \<and>
   Update demo_consts
     \<lparr> ObjectOld = RemoteVtepPtr (Some (peer ''10.1.0.1'' ''aa:bb'' None [''192.168.0.1'', ''192.168.0.2''])),
       ObjectNew = RemoteVtepPtr (Some (peer ''10.1.0.1'' ''aa:bb'' (Some []) [''192.168.0.1'', ''192.168.0.2''])) \<rparr>
     [] = Inr []"
  using Update_enqueues_once_iff_a_compared_field_differs
          [of demo_consts "peer ''10.1.0.1'' ''aa:bb'' (Some ''172.16.0.1,172.16.0.2'') [''192.168.0.1'', ''192.168.0.2'']"
              "peer ''10.1.0.1'' ''aa:bb'' (Some ''172.16.0.1,172.16.0.2'') [''192.168.0.2'', ''192.168.0.1'']" "[]"]
        Update_enqueues_once_iff_a_compared_field_differs
          [of demo_consts "peer ''10.1.0.1'' ''aa:bb'' None [''192.168.0.1'', ''192.168.0.2'']"
              "peer ''10.1.0.1'' ''aa:bb'' (Some []) [''192.168.0.1'', ''192.168.0.2'']" "[]"]
  by (simp add: demo_consts_def peer_def index_map_def less_Suc_eq all_conj_distrib)

section \<open>Properties of the allocator and the retention store\<close>

subsection \<open>What the operations leave unchanged\<close>

lemma key_of_record_rebind [simp]: "key_of_record (rebind w r) = key_of_record r"
  by (simp add: key_of_record_def rebind_def split: option.splits)

lemma key_of_record_clear_binding [simp]: "key_of_record (clear_binding r) = key_of_record r"
  by (simp add: key_of_record_def clear_binding_def split: option.splits)

lemma rebind_clear_binding [simp]: "rebind w (clear_binding r) = rebind w r"
  by (simp add: rebind_def clear_binding_def)

lemma allocate_one_frame:
  assumes "allocate_one st b m nt f subnets = Inr (r, st')"
  shows "retention st' = retention st \<and> bound st' = bound st \<and> next_mac st' = next_mac st \<and>
         binding r = b \<and> mac r = m \<and> family r = f"
  using assms
  by (auto simp: allocate_one_def mark_used_def split: list.splits option.splits prod.splits)

lemma allocate_families_frame:
  assumes "allocate_families st b m nt fs subnets = Inr (rs, st')"
  shows "retention st' = retention st \<and> bound st' = bound st \<and> next_mac st' = next_mac st \<and>
         (\<forall>r \<in> set rs. binding r = b \<and> mac r = m) \<and> map family rs = fs"
  using assms
proof (induction fs arbitrary: st rs)
  case Nil
  then show ?case by simp
next
  case (Cons f fs)
  from Cons.prems obtain r st1 rs' where
    one: "allocate_one st b m nt f subnets = Inr (r, st1)" and
    rest: "allocate_families st1 b m nt fs subnets = Inr (rs', st')" and
    rs: "rs = r # rs'"
    by (auto split: sum.splits prod.splits)
  from allocate_one_frame [OF one] Cons.IH [OF rest] rs show ?case
    by simp
qed

lemma key_of_new_binding:
  "binding r = new_binding w ident \<Longrightarrow> key_of_record r = key_of_identity ident"
  by (auto simp: key_of_record_def key_of_identity_def new_binding_def is_stateful_def)

lemma allocate_fresh_post:
  assumes "allocate_fresh st w c subnets = Inr (rs, st')"
  shows "bound st' = (bound st)(identity_of w \<mapsto> rs) \<and> retention st' = retention st \<and>
         (\<forall>r \<in> set rs. key_of_record r = key_of_identity (identity_of w)) \<and>
         (\<forall>r \<in> set rs. mac r = next_mac st) \<and> map family rs = families c"
proof -
  from assms obtain st2 where
    fam: "allocate_families (st\<lparr> next_mac := Suc (next_mac st) \<rparr>)
            (new_binding w (identity_of w)) (next_mac st) (networkType c) (families c) subnets =
          Inr (rs, st2)" and
    st': "st' = st2\<lparr> bound := (bound st2)(identity_of w \<mapsto> rs) \<rparr>"
    by (auto simp: allocate_fresh_def generate_mac_def split: sum.splits prod.splits)
  from allocate_families_frame [OF fam] st' show ?thesis
    by (auto simp: key_of_new_binding)
qed

lemma Lookup_Forget [simp]: "Lookup (Forget store ident) ident = None"
  by (simp add: Lookup_def Forget_def split: option.splits)

lemma Allocate_post:
  assumes "Allocate st w c subnets = Inr (rs, st')"
  shows "bound st' = (bound st)(identity_of w \<mapsto> rs) \<and>
         Lookup (retention st') (identity_of w) = None \<and>
         (\<forall>r \<in> set rs. key_of_record r = key_of_identity (identity_of w))"
proof (cases "Lookup (retention st) (identity_of w)")
  case None
  with assms have "allocate_fresh st w c subnets = Inr (rs, st')"
    by (simp add: Allocate_def)
  from allocate_fresh_post [OF this] None show ?thesis by simp
next
  case (Some kept)
  with assms show ?thesis
    by (auto simp: Allocate_def list_ex_iff split: if_splits)
qed

lemma Retain_keyed:
  "key_of_record r = Some key \<Longrightarrow>
     Retain store r = store(key \<mapsto> (case store key of None \<Rightarrow> [] | Some old \<Rightarrow> old) @ [r])"
  by (simp add: Retain_def)

lemma foldl_Retain_same_key:
  assumes "\<forall>r \<in> set rs. key_of_record r = Some key" and "rs \<noteq> []"
  shows "foldl Retain store rs =
           store(key \<mapsto> (case store key of None \<Rightarrow> [] | Some old \<Rightarrow> old) @ rs)"
  using assms
proof (induction rs arbitrary: store)
  case Nil
  then show ?case by simp
next
  case (Cons r rs)
  from Cons.prems have r: "Retain store r =
      store(key \<mapsto> (case store key of None \<Rightarrow> [] | Some old \<Rightarrow> old) @ [r])"
    by (simp add: Retain_keyed)
  show ?case
  proof (cases "rs = []")
    case True
    with r show ?thesis by simp
  next
    case False
    with Cons.prems have "foldl Retain (Retain store r) rs =
        (Retain store r)(key \<mapsto>
           (case Retain store r key of None \<Rightarrow> [] | Some old \<Rightarrow> old) @ rs)"
      by (intro Cons.IH) simp_all
    then show ?thesis by (simp add: r)
  qed
qed

lemma foldl_Retain_other_key:
  assumes "\<forall>r \<in> set rs. key_of_record r \<noteq> Some key"
  shows "foldl Retain store rs key = store key"
  using assms
  by (induction rs arbitrary: store) (auto simp: Retain_def split: option.splits)

lemma stateful_key: "is_stateful ident \<Longrightarrow> \<exists>k. key_of_identity ident = Some (referred ident, k) \<and> ordinal ident = Some k"
  by (auto simp: key_of_identity_def is_stateful_def)

lemma Release_stateful_Lookup:
  assumes "is_stateful ident" and "bound st ident = Some rs" and "rs \<noteq> []"
    and "\<forall>r \<in> set rs. key_of_record r = key_of_identity ident"
  shows "Lookup (retention (Release st ident)) ident =
           Some ((case Lookup (retention st) ident of None \<Rightarrow> [] | Some old \<Rightarrow> old) @
                 map clear_binding rs)"
proof -
  from stateful_key [OF assms(1)] obtain k where k: "key_of_identity ident = Some (referred ident, k)"
    by blast
  have "foldl Retain (retention st) (map clear_binding rs) =
          (retention st)((referred ident, k) \<mapsto>
             (case retention st (referred ident, k) of None \<Rightarrow> [] | Some old \<Rightarrow> old) @
             map clear_binding rs)"
    using assms(3,4) k by (intro foldl_Retain_same_key) auto
  with assms(1,2) k show ?thesis
    by (simp add: Release_def Lookup_def)
qed


lemma bound_foldl_mark_free [simp]: "bound (foldl mark_free st rs) = bound st"
  by (induction rs arbitrary: st) (simp_all add: mark_free_def)

lemma retention_foldl_mark_free [simp]: "retention (foldl mark_free st rs) = retention st"
  by (induction rs arbitrary: st) (simp_all add: mark_free_def)

lemma key_of_identity_inj:
  assumes "is_stateful ident" and "ident' \<noteq> ident"
  shows "key_of_identity ident' \<noteq> key_of_identity ident"
proof
  assume eq: "key_of_identity ident' = key_of_identity ident"
  from stateful_key [OF assms(1)] obtain k where
    k: "key_of_identity ident = Some (referred ident, k)" "ordinal ident = Some k"
    by blast
  with eq have "referred ident' = referred ident" "ordinal ident' = Some k"
    by (auto simp: key_of_identity_def split: if_splits)
  with k have "ident' = ident" by simp
  with assms(2) show False by simp
qed

lemma bound_consistent_empty: "bound_consistent empty_allocator"
  by (simp add: bound_consistent_def empty_allocator_def)

lemma bound_consistent_perform:
  assumes "bound_consistent st"
  shows "bound_consistent (perform st op)"
proof (cases op)
  case (DoAllocate w c subnets)
  show ?thesis
  proof (cases "Allocate st w c subnets")
    case (Inl e)
    with DoAllocate assms show ?thesis by simp
  next
    case (Inr res)
    obtain rs st' where res: "res = (rs, st')" by (cases res)
    from Allocate_post [OF Inr [unfolded res]] assms have "bound_consistent st'"
      by (auto simp: bound_consistent_def)
    with DoAllocate Inr res show ?thesis by simp
  qed
next
  case (DoRelease ident)
  with assms show ?thesis
    by (auto simp: bound_consistent_def Release_def split: option.splits if_splits)
next
  case (DoPurge ident)
  with assms show ?thesis
    by (auto simp: bound_consistent_def Purge_def split: option.splits)
qed

lemma bound_consistent_run: "bound_consistent st \<Longrightarrow> bound_consistent (run st ops)"
  unfolding run_def
  by (induction ops arbitrary: st) (simp_all add: bound_consistent_perform)

lemma Forget_other_key:
  "key_of_identity ident \<noteq> Some key \<Longrightarrow> Forget store ident key = store key"
  by (auto simp: Forget_def split: option.splits)

lemma perform_keeps_other_entries:
  assumes "bound_consistent st" and "key_of_identity (subject op) \<noteq> Some key"
  shows "retention (perform st op) key = retention st key"
proof (cases op)
  case (DoAllocate w c subnets)
  with assms(2) have other: "key_of_identity (identity_of w) \<noteq> Some key" by simp
  show ?thesis
  proof (cases "Lookup (retention st) (identity_of w)")
    case None
    then have "Allocate st w c subnets = allocate_fresh st w c subnets"
      by (simp add: Allocate_def)
    with DoAllocate show ?thesis
      by (auto split: sum.splits dest: allocate_fresh_post)
  next
    case (Some kept)
    with DoAllocate other show ?thesis
      by (simp add: Allocate_def Forget_other_key)
  qed
next
  case (DoRelease ident)
  with assms(2) have other: "key_of_identity ident \<noteq> Some key" by simp
  show ?thesis
  proof (cases "bound st ident")
    case None
    with DoRelease show ?thesis by (simp add: Release_def)
  next
    case (Some rs)
    with assms(1) other have "\<forall>r \<in> set (map clear_binding rs). key_of_record r \<noteq> Some key"
      by (auto simp: bound_consistent_def)
    from foldl_Retain_other_key [OF this] Some DoRelease show ?thesis
      by (simp add: Release_def)
  qed
next
  case (DoPurge ident)
  with assms(2) show ?thesis
    by (simp add: Purge_def Forget_other_key split: option.splits)
qed

lemma run_keeps_other_entries:
  assumes "bound_consistent st" and "\<forall>op \<in> set ops. key_of_identity (subject op) \<noteq> Some key"
  shows "retention (run st ops) key = retention st key"
  using assms unfolding run_def
proof (induction ops arbitrary: st)
  case Nil
  then show ?case by simp
next
  case (Cons op ops)
  from Cons.prems have "retention (foldl perform (perform st op) ops) key =
      retention (perform st op) key"
    by (intro Cons.IH) (simp_all add: bound_consistent_perform)
  with Cons.prems show ?case
    by (simp add: perform_keeps_other_entries)
qed

subsection \<open>Slots are held exclusively\<close>

lemma exclusive_drop: "exclusive S U \<Longrightarrow> exclusive (S(p := [])) U"
  unfolding exclusive_def by (auto split: if_splits)

lemma exclusive_free: "exclusive S U \<Longrightarrow> exclusive (S(p := [])) (U - set (S p))"
  unfolding exclusive_def by (auto split: if_splits)

lemma exclusive_move:
  "exclusive S U \<Longrightarrow> p \<noteq> q \<Longrightarrow> exclusive (S(p := [], q := S q @ S p)) U"
  unfolding exclusive_def by (auto split: if_splits)

lemma exclusive_replace:
  "exclusive S U \<Longrightarrow> p \<noteq> q \<Longrightarrow> exclusive (S(p := [], q := S p)) U"
  unfolding exclusive_def by (auto split: if_splits)

lemma exclusive_add:
  "exclusive S U \<Longrightarrow> distinct new \<Longrightarrow> set new \<inter> U = {} \<Longrightarrow>
     exclusive (S(p := new)) (U \<union> set new)"
  unfolding exclusive_def by (auto split: if_splits) blast+


lemma slot_rebind [simp]: "slot (rebind w r) = slot r"
  by (simp add: slot_def rebind_def)

lemma slot_clear_binding [simp]: "slot (clear_binding r) = slot r"
  by (simp add: slot_def clear_binding_def)

lemma used_slots_mark_used: "used_slots (mark_used st sn a) = insert (sn, a) (used_slots st)"
  by (auto simp: used_slots_def mark_used_def split: if_splits)

lemma used_slots_mark_free: "used_slots (mark_free st r) = used_slots st - {slot r}"
  by (auto simp: used_slots_def mark_free_def slot_def split: if_splits)

lemma used_slots_foldl_mark_free:
  "used_slots (foldl mark_free st rs) = used_slots st - set (map slot rs)"
  by (induction rs arbitrary: st) (auto simp: used_slots_mark_free)

lemma used_slots_cong: "used st' = used st \<Longrightarrow> used_slots st' = used_slots st"
  by (simp add: used_slots_def)

lemma pick_subnet_unused:
  "pick_subnet st cands = Some (s, a) \<Longrightarrow> a \<notin> used st (subnet_name s)"
proof (induction cands)
  case Nil
  then show ?case by simp
next
  case (Cons c cands)
  show ?case
  proof (cases "free_address st c")
    case None
    with Cons show ?thesis by simp
  next
    case (Some b)
    with Cons.prems have "s = c" "a = b" by simp_all
    with Some show ?thesis
      by (auto simp: free_address_def find_Some_iff)
  qed
qed

lemma allocate_one_fresh:
  assumes "allocate_one st b m nt f subnets = Inr (r, st')"
  shows "slot r \<notin> used_slots st \<and> used_slots st' = insert (slot r) (used_slots st)"
proof -
  from assms obtain s a where
    p: "pick_subnet st (eligible nt f subnets) = Some (s, a)" and
    r: "subnet r = subnet_name s" "address r = a" and
    st': "st' = mark_used st (subnet_name s) a"
    by (auto simp: allocate_one_def split: list.splits option.splits prod.splits)
  from pick_subnet_unused [OF p] r st' show ?thesis
    by (simp add: slot_def used_slots_mark_used) (simp add: used_slots_def)
qed

lemma allocate_families_fresh:
  assumes "allocate_families st b m nt fs subnets = Inr (rs, st')"
  shows "distinct (map slot rs) \<and> set (map slot rs) \<inter> used_slots st = {} \<and>
         used_slots st' = used_slots st \<union> set (map slot rs)"
  using assms
proof (induction fs arbitrary: st rs)
  case Nil
  then show ?case by simp
next
  case (Cons f fs)
  from Cons.prems obtain r st1 rs' where
    one: "allocate_one st b m nt f subnets = Inr (r, st1)" and
    rest: "allocate_families st1 b m nt fs subnets = Inr (rs', st')" and
    rs: "rs = r # rs'"
    by (auto split: sum.splits prod.splits)
  from allocate_one_fresh [OF one] have
    a: "slot r \<notin> used_slots st" and b: "used_slots st1 = insert (slot r) (used_slots st)"
    by simp_all
  from Cons.IH [OF rest] have
    c: "distinct (map slot rs')" and d: "set (map slot rs') \<inter> used_slots st1 = {}" and
    e: "used_slots st' = used_slots st1 \<union> set (map slot rs')"
    by simp_all
  from a b c d e rs show ?case
    by auto
qed

lemma slots_at_BoundTo:
  "slots_at st (BoundTo ident) = (case bound st ident of None \<Rightarrow> [] | Some rs \<Rightarrow> map slot rs)"
  by (simp add: slots_at_def records_at_def split: option.splits)

lemma slots_at_RetainedFor:
  "slots_at st (RetainedFor key) =
     (case retention st key of None \<Rightarrow> [] | Some rs \<Rightarrow> map slot rs)"
  by (simp add: slots_at_def records_at_def split: option.splits)

lemma slots_at_fresh:
  assumes "bound st' = (bound st)(ident \<mapsto> rs)" and "retention st' = retention st"
  shows "slots_at st' = (slots_at st)(BoundTo ident := map slot rs)"
proof
  fix p
  show "slots_at st' p = ((slots_at st)(BoundTo ident := map slot rs)) p"
    using assms by (cases p) (simp_all add: slots_at_BoundTo slots_at_RetainedFor)
qed

lemma slots_at_rebind:
  assumes "bound st' = (bound st)(ident \<mapsto> map (rebind w) kept)"
    and "retention st' = (retention st)(key := None)" and "retention st key = Some kept"
  shows "slots_at st' =
           (slots_at st)(RetainedFor key := [], BoundTo ident := slots_at st (RetainedFor key))"
proof
  fix p
  show "slots_at st' p =
          ((slots_at st)(RetainedFor key := [], BoundTo ident := slots_at st (RetainedFor key))) p"
    using assms by (cases p) (simp_all add: slots_at_BoundTo slots_at_RetainedFor comp_def)
qed

lemma slots_at_retain:
  assumes "bound st' = (bound st)(ident := None)"
    and "retention st' = (retention st)(key \<mapsto>
           (case retention st key of None \<Rightarrow> [] | Some old \<Rightarrow> old) @ map clear_binding rs)"
    and "bound st ident = Some rs"
  shows "slots_at st' =
           (slots_at st)(BoundTo ident := [],
              RetainedFor key := slots_at st (RetainedFor key) @ slots_at st (BoundTo ident))"
proof
  fix p
  show "slots_at st' p =
          ((slots_at st)(BoundTo ident := [],
              RetainedFor key := slots_at st (RetainedFor key) @ slots_at st (BoundTo ident))) p"
    using assms
    by (cases p) (simp_all add: slots_at_BoundTo slots_at_RetainedFor comp_def split: option.splits)
qed

lemma slots_at_unbind:
  assumes "bound st' = (bound st)(ident := None)" and "retention st' = retention st"
  shows "slots_at st' = (slots_at st)(BoundTo ident := [])"
proof
  fix p
  show "slots_at st' p = ((slots_at st)(BoundTo ident := [])) p"
    using assms by (cases p) (simp_all add: slots_at_BoundTo slots_at_RetainedFor)
qed

lemma slots_at_forget:
  assumes "bound st' = bound st" and "retention st' = (retention st)(key := None)"
  shows "slots_at st' = (slots_at st)(RetainedFor key := [])"
proof
  fix p
  show "slots_at st' p = ((slots_at st)(RetainedFor key := [])) p"
    using assms by (cases p) (simp_all add: slots_at_BoundTo slots_at_RetainedFor)
qed

lemma used_foldl_mark_free_bound [simp]:
  "used (st\<lparr>bound := b\<rparr>) = used st" "used (st\<lparr>retention := t\<rparr>) = used st"
  by simp_all

lemma exclusive_Allocate:
  assumes ex: "exclusive (slots_at st) (used_slots st)"
    and a: "Allocate st w c subnets = Inr (rs, st')"
  shows "exclusive (slots_at st') (used_slots st')"
proof (cases "Lookup (retention st) (identity_of w)")
  case None
  with a have "allocate_fresh st w c subnets = Inr (rs, st')"
    by (simp add: Allocate_def)
  then obtain st2 where
    fam: "allocate_families (st\<lparr> next_mac := Suc (next_mac st) \<rparr>)
            (new_binding w (identity_of w)) (next_mac st) (networkType c) (families c) subnets =
          Inr (rs, st2)" and
    st': "st' = st2\<lparr> bound := (bound st2)(identity_of w \<mapsto> rs) \<rparr>"
    by (auto simp: allocate_fresh_def generate_mac_def split: sum.splits prod.splits)
  have u0: "used_slots (st\<lparr> next_mac := Suc (next_mac st) \<rparr>) = used_slots st"
    by (simp add: used_slots_def)
  from allocate_families_fresh [OF fam] u0 have
    d: "distinct (map slot rs)" and i: "set (map slot rs) \<inter> used_slots st = {}" and
    u: "used_slots st2 = used_slots st \<union> set (map slot rs)"
    by simp_all
  from allocate_families_frame [OF fam] st' have
    "bound st' = (bound st)(identity_of w \<mapsto> rs)" "retention st' = retention st"
    by simp_all
  then have s: "slots_at st' = (slots_at st)(BoundTo (identity_of w) := map slot rs)"
    by (rule slots_at_fresh)
  from st' u have u': "used_slots st' = used_slots st \<union> set (map slot rs)"
    by (simp add: used_slots_def)
  from exclusive_add [OF ex d i] s u' show ?thesis
    by simp
next
  case (Some kept)
  then obtain key where
    k: "key_of_identity (identity_of w) = Some key" and kept: "retention st key = Some kept"
    by (auto simp: Lookup_def split: option.splits)
  from a Some k have
    st': "st' = st\<lparr> retention := (retention st)(key := None),
                     bound := (bound st)(identity_of w \<mapsto> map (rebind w) kept) \<rparr>"
    by (auto simp: Allocate_def Forget_def split: if_splits)
  then have "bound st' = (bound st)(identity_of w \<mapsto> map (rebind w) kept)"
    "retention st' = (retention st)(key := None)"
    by simp_all
  from slots_at_rebind [OF this kept] have
    s: "slots_at st' = (slots_at st)(RetainedFor key := [],
          BoundTo (identity_of w) := slots_at st (RetainedFor key))" .
  from st' have u: "used_slots st' = used_slots st"
    by (simp add: used_slots_def)
  from exclusive_replace [OF ex, of "RetainedFor key" "BoundTo (identity_of w)"] s u
  show ?thesis by simp
qed

lemma exclusive_Release:
  assumes bc: "bound_consistent st" and ex: "exclusive (slots_at st) (used_slots st)"
  shows "exclusive (slots_at (Release st ident)) (used_slots (Release st ident))"
proof (cases "bound st ident")
  case None
  with ex show ?thesis by (simp add: Release_def)
next
  case (Some rs)
  show ?thesis
  proof (cases "is_stateful ident")
    case False
    with Some have st': "Release st ident = (foldl mark_free st rs)\<lparr> bound := (bound st)(ident := None) \<rparr>"
      by (simp add: Release_def)
    then have "bound (Release st ident) = (bound st)(ident := None)"
      "retention (Release st ident) = retention st"
      by simp_all
    then have s: "slots_at (Release st ident) = (slots_at st)(BoundTo ident := [])"
      by (rule slots_at_unbind)
    from st' have "used_slots (Release st ident) = used_slots (foldl mark_free st rs)"
      by (simp add: used_slots_def)
    with Some have u: "used_slots (Release st ident) = used_slots st - set (slots_at st (BoundTo ident))"
      by (simp add: used_slots_foldl_mark_free slots_at_BoundTo)
    from exclusive_free [OF ex, of "BoundTo ident"] s u show ?thesis
      by simp
  next
    case True
    from stateful_key [OF True] obtain k where
      k: "key_of_identity ident = Some (referred ident, k)"
      by blast
    from True Some have st': "Release st ident =
        st\<lparr> bound := (bound st)(ident := None),
            retention := foldl Retain (retention st) (map clear_binding rs) \<rparr>"
      by (simp add: Release_def)
    then have u: "used_slots (Release st ident) = used_slots st"
      by (simp add: used_slots_def)
    show ?thesis
    proof (cases "rs = []")
      case True
      with st' have "bound (Release st ident) = (bound st)(ident := None)"
        "retention (Release st ident) = retention st"
        by simp_all
      then have "slots_at (Release st ident) = (slots_at st)(BoundTo ident := [])"
        by (rule slots_at_unbind)
      with exclusive_drop [OF ex, of "BoundTo ident"] u show ?thesis
        by simp
    next
      case False
      from bc Some k have keys: "\<forall>r \<in> set (map clear_binding rs). key_of_record r = Some (referred ident, k)"
        by (auto simp: bound_consistent_def)
      from False have "map clear_binding rs \<noteq> []" by simp
      from foldl_Retain_same_key [OF keys this, of "retention st"] st' have
        "bound (Release st ident) = (bound st)(ident := None)"
        "retention (Release st ident) = (retention st)((referred ident, k) \<mapsto>
           (case retention st (referred ident, k) of None \<Rightarrow> [] | Some old \<Rightarrow> old) @
           map clear_binding rs)"
        by simp_all
      from slots_at_retain [OF this Some] have
        "slots_at (Release st ident) =
           (slots_at st)(BoundTo ident := [],
              RetainedFor (referred ident, k) :=
                slots_at st (RetainedFor (referred ident, k)) @ slots_at st (BoundTo ident))" .
      with exclusive_move [OF ex, of "BoundTo ident" "RetainedFor (referred ident, k)"] u
      show ?thesis by simp
    qed
  qed
qed

lemma exclusive_Purge:
  assumes ex: "exclusive (slots_at st) (used_slots st)"
  shows "exclusive (slots_at (Purge st ident)) (used_slots (Purge st ident))"
proof (cases "Lookup (retention st) ident")
  case None
  with ex show ?thesis by (simp add: Purge_def)
next
  case (Some kept)
  then obtain key where
    k: "key_of_identity ident = Some key" and kept: "retention st key = Some kept"
    by (auto simp: Lookup_def split: option.splits)
  from Some k have st': "Purge st ident =
      (foldl mark_free st kept)\<lparr> retention := (retention st)(key := None) \<rparr>"
    by (simp add: Purge_def Forget_def)
  then have "bound (Purge st ident) = bound st"
    "retention (Purge st ident) = (retention st)(key := None)"
    by simp_all
  then have s: "slots_at (Purge st ident) = (slots_at st)(RetainedFor key := [])"
    by (rule slots_at_forget)
  from st' have "used_slots (Purge st ident) = used_slots (foldl mark_free st kept)"
    by (simp add: used_slots_def)
  with kept have u: "used_slots (Purge st ident) = used_slots st - set (slots_at st (RetainedFor key))"
    by (simp add: used_slots_foldl_mark_free slots_at_RetainedFor)
  from exclusive_free [OF ex, of "RetainedFor key"] s u show ?thesis
    by simp
qed

lemma well_formed_empty: "well_formed empty_allocator"
  by (simp add: well_formed_def bound_consistent_def exclusive_def slots_at_def records_at_def
      empty_allocator_def split: place.splits)

lemma well_formed_perform:
  assumes "well_formed st"
  shows "well_formed (perform st op)"
proof -
  from assms have bc: "bound_consistent st" and ex: "exclusive (slots_at st) (used_slots st)"
    by (simp_all add: well_formed_def)
  have "exclusive (slots_at (perform st op)) (used_slots (perform st op))"
  proof (cases op)
    case (DoAllocate w c subnets)
    show ?thesis
    proof (cases "Allocate st w c subnets")
      case (Inl e)
      with DoAllocate ex show ?thesis by simp
    next
      case (Inr res)
      obtain rs st' where res: "res = (rs, st')" by (cases res)
      from exclusive_Allocate [OF ex Inr [unfolded res]] DoAllocate Inr res show ?thesis
        by simp
    qed
  next
    case (DoRelease ident)
    with exclusive_Release [OF bc ex] show ?thesis by simp
  next
    case (DoPurge ident)
    with exclusive_Purge [OF ex] show ?thesis by simp
  qed
  with bound_consistent_perform [OF bc] show ?thesis
    by (simp add: well_formed_def)
qed

lemma well_formed_run: "well_formed st \<Longrightarrow> well_formed (run st ops)"
  unfolding run_def
  by (induction ops arbitrary: st) (simp_all add: well_formed_perform)


lemma retained_record_stays_reserved:
  assumes "well_formed st" and "retention st key = Some kept" and "r \<in> set kept"
  shows "address r \<in> used st (subnet r)"
proof -
  from assms(1) have "set (slots_at st (RetainedFor key)) \<subseteq> used_slots st"
    by (simp add: well_formed_def exclusive_def)
  with assms(2,3) have "slot r \<in> used_slots st"
    by (auto simp: slots_at_RetainedFor)
  then show ?thesis
    by (simp add: slot_def used_slots_def)
qed

lemma retained_record_not_handed_out:
  assumes wf: "well_formed st" and kept: "retention st key = Some kept" and r: "r \<in> set kept"
    and other: "key_of_identity (identity_of w) \<noteq> Some key"
    and a: "Allocate st w c subnets = Inr (rs', st')" and r': "r' \<in> set rs'"
  shows "(subnet r', address r') \<noteq> (subnet r, address r)"
proof -
  from wf have bc: "bound_consistent st" by (simp add: well_formed_def)
  from well_formed_perform [OF wf, of "DoAllocate w c subnets"] a have "well_formed st'"
    by simp
  then have dis: "set (slots_at st' (BoundTo (identity_of w))) \<inter>
      set (slots_at st' (RetainedFor key)) = {}"
    by (simp add: well_formed_def exclusive_def)
  from perform_keeps_other_entries [OF bc, of "DoAllocate w c subnets" key] other a kept
  have "retention st' key = Some kept"
    by simp
  with r have 1: "slot r \<in> set (slots_at st' (RetainedFor key))"
    by (auto simp: slots_at_RetainedFor)
  from Allocate_post [OF a] r' have 2: "slot r' \<in> set (slots_at st' (BoundTo (identity_of w)))"
    by (auto simp: slots_at_BoundTo)
  from dis 1 2 have "slot r' \<noteq> slot r" by auto
  then show ?thesis by (simp add: slot_def)
qed

subsection \<open>The workloads of the tests, evaluated\<close>

lemma identity_of_pod3: "identity_of pod3 = \<lparr> referred = fake_set, ordinal = Some 3 \<rparr>"
  by (simp add: pod3_def identity_of_def parse_ordinal_def is_digit_def digit_value_def)

lemma identity_of_pod3_again: "identity_of pod3_again = \<lparr> referred = fake_set, ordinal = Some 3 \<rparr>"
  by (simp add: pod3_again_def identity_of_def parse_ordinal_def is_digit_def digit_value_def)

lemma identity_of_pod5: "identity_of pod5 = \<lparr> referred = fake_set, ordinal = Some 5 \<rparr>"
  by (simp add: pod5_def identity_of_def parse_ordinal_def is_digit_def digit_value_def)

lemma pod3_identity_stateful: "is_stateful \<lparr> referred = fake_set, ordinal = Some 3 \<rparr>"
  by (simp add: is_stateful_def fake_set_def)

lemma nothing_retained: "Lookup (retention empty_allocator) ident = None"
  by (simp add: Lookup_def empty_allocator_def split: option.splits)

lemma Lookup_empty [simp]: "Lookup (\<lambda>key. None) ident = None"
  by (simp add: Lookup_def split: option.splits)

lemma binding_of_pod3:
  "new_binding pod3 (identity_of pod3) =
     \<lparr> PodUID = ''uid-a'', PodName = ''pod-3'', NodeName = ''node3'',
       ReferredObject = fake_set, Stateful = Some 3 \<rparr>"
  unfolding identity_of_pod3 by (simp add: new_binding_def pod3_identity_stateful pod3_def)

lemma first_allocation:
  "\<exists>st'. Allocate empty_allocator pod3 dual_stack [overlay_v4, overlay_v6] =
     Inr ([\<lparr> address = 101, family = IPv4, mac = 0, subnet = ''overlay-v4'', network = ''overlay'',
              binding = \<lparr> PodUID = ''uid-a'', PodName = ''pod-3'', NodeName = ''node3'',
                          ReferredObject = fake_set, Stateful = Some 3 \<rparr> \<rparr>,
           \<lparr> address = 600, family = IPv6, mac = 0, subnet = ''overlay-v6'', network = ''overlay'',
              binding = \<lparr> PodUID = ''uid-a'', PodName = ''pod-3'', NodeName = ''node3'',
                          ReferredObject = fake_set, Stateful = Some 3 \<rparr> \<rparr>], st')"
  by (simp add: Allocate_def nothing_retained allocate_fresh_def binding_of_pod3 generate_mac_def
      allocate_one_def eligible_def free_address_def mark_used_def empty_allocator_def
      dual_stack_def overlay_v4_def overlay_v6_def overlay_net_def)

lemma other_workload_allocates:
  "\<not> isl (Allocate (run (Release (run empty_allocator
                 [DoAllocate pod3 dual_stack [overlay_v4, overlay_v6]]) (identity_of pod3))
              [DoAllocate pod5 dual_stack [overlay_v4, overlay_v6],
               DoRelease (identity_of pod5), DoPurge (identity_of pod5)])
            pod5 dual_stack [overlay_v4, overlay_v6])"
  by code_simp

subsection \<open>Release of a stateful workload\<close>

text \<open>
  Claim C6. In a well-formed state, releasing a stateful identity frees no address (the
  used sets are unchanged) and destroys no record: each record \<open>r\<close> that was bound to the
  identity is no longer bound, and is found in the retention store under that identity
  with the pod UID and the node name of its binding cleared and every other field as it
  was (pod name, referred object, ordinal, address, family, MAC, subnet, network).
  Whatever other identities then do (allocate, release, purge), the entry of this
  identity stays as it is and the address of \<open>r\<close> stays marked used in its subnet; and
  an allocation for another identity, after any such run, returns no record with the
  address of \<open>r\<close> in its subnet, nor one with the referred object and ordinal of \<open>r\<close>.
\<close>

theorem stateful_release_retains_record:
  assumes "well_formed st" and "is_stateful ident"
    and "bound st ident = Some rs" and "r \<in> set rs"
  shows "used (Release st ident) = used st \<and>
         bound (Release st ident) ident = None \<and>
         (\<exists>kept. Lookup (retention (Release st ident)) ident = Some kept \<and>
            r\<lparr> binding := (binding r)\<lparr> PodUID := [], NodeName := [] \<rparr> \<rparr> \<in> set kept) \<and>
         (\<forall>ops. (\<forall>op \<in> set ops. subject op \<noteq> ident) \<longrightarrow>
            Lookup (retention (run (Release st ident) ops)) ident =
              Lookup (retention (Release st ident)) ident \<and>
            address r \<in> used (run (Release st ident) ops) (subnet r) \<and>
            (\<forall>w c subnets rs' st'.
               identity_of w \<noteq> ident \<and>
               Allocate (run (Release st ident) ops) w c subnets = Inr (rs', st') \<longrightarrow>
               (\<forall>r' \<in> set rs'.
                  (subnet r', address r') \<noteq> (subnet r, address r) \<and>
                  (ReferredObject (binding r'), Stateful (binding r')) \<noteq>
                  (ReferredObject (binding r), Stateful (binding r)))))"
proof -
  let ?st = "Release st ident"
  let ?r = "r\<lparr> binding := (binding r)\<lparr> PodUID := [], NodeName := [] \<rparr> \<rparr>"
  from assms(1) have bc: "bound_consistent st" by (simp add: well_formed_def)
  from stateful_key [OF assms(2)] obtain k where
    k: "key_of_identity ident = Some (referred ident, k)"
    by blast
  from bc assms(3) have keys: "\<forall>r \<in> set rs. key_of_record r = key_of_identity ident"
    by (auto simp: bound_consistent_def)
  from assms(4) have ne: "rs \<noteq> []" by auto
  have wf': "well_formed ?st"
    using well_formed_perform [OF assms(1), of "DoRelease ident"] by simp
  have 1: "used ?st = used st"
    using assms(2,3) by (simp add: Release_def)
  have 2: "bound ?st ident = None"
    using assms(2,3) by (simp add: Release_def)
  from Release_stateful_Lookup [OF assms(2,3) ne keys] assms(4) obtain kept where
    kept: "Lookup (retention ?st) ident = Some kept" "?r \<in> set kept"
    by (auto simp: clear_binding_def)
  have 4: "Lookup (retention (run ?st ops)) ident = Lookup (retention ?st) ident \<and>
            address r \<in> used (run ?st ops) (subnet r) \<and>
            (\<forall>w c subnets rs' st'.
               identity_of w \<noteq> ident \<and> Allocate (run ?st ops) w c subnets = Inr (rs', st') \<longrightarrow>
               (\<forall>r' \<in> set rs'.
                  (subnet r', address r') \<noteq> (subnet r, address r) \<and>
                  (ReferredObject (binding r'), Stateful (binding r')) \<noteq>
                  (ReferredObject (binding r), Stateful (binding r))))"
    if others: "\<forall>op \<in> set ops. subject op \<noteq> ident" for ops
  proof (intro conjI allI impI ballI)
    let ?S = "run ?st ops"
    from others k have "\<forall>op \<in> set ops. key_of_identity (subject op) \<noteq> Some (referred ident, k)"
      using key_of_identity_inj [OF assms(2)] by metis
    moreover from wf' have "bound_consistent ?st" by (simp add: well_formed_def)
    ultimately have same: "retention ?S (referred ident, k) = retention ?st (referred ident, k)"
      by (rule run_keeps_other_entries [rotated])
    with k show frame: "Lookup (retention ?S) ident = Lookup (retention ?st) ident"
      by (simp add: Lookup_def)
    from kept k same have entry: "retention ?S (referred ident, k) = Some kept"
      by (simp add: Lookup_def)
    have wfS: "well_formed ?S"
      by (rule well_formed_run [OF wf'])
    from retained_record_stays_reserved [OF wfS entry kept(2)]
    show "address r \<in> used ?S (subnet r)"
      by simp
    fix w c subnets rs' st' r'
    assume a: "identity_of w \<noteq> ident \<and> Allocate ?S w c subnets = Inr (rs', st')"
      and r': "r' \<in> set rs'"
    from a k key_of_identity_inj [OF assms(2)] have
      other: "key_of_identity (identity_of w) \<noteq> Some (referred ident, k)"
      by metis
    from a have al: "Allocate ?S w c subnets = Inr (rs', st')" by simp
    from retained_record_not_handed_out [OF wfS entry kept(2) other al r']
    show "(subnet r', address r') \<noteq> (subnet r, address r)"
      by simp
    from Allocate_post [OF al] r'
    have kr': "key_of_record r' = key_of_identity (identity_of w)" by simp
    from keys assms(4) k have kr: "key_of_record r = Some (referred ident, k)" by simp
    show "(ReferredObject (binding r'), Stateful (binding r')) \<noteq>
        (ReferredObject (binding r), Stateful (binding r))"
    proof
      assume "(ReferredObject (binding r'), Stateful (binding r')) =
              (ReferredObject (binding r), Stateful (binding r))"
      then have "key_of_record r' = key_of_record r"
        by (simp add: key_of_record_def split: option.splits)
      with kr kr' other show False by simp
    qed
  qed
  from 1 2 kept 4 show ?thesis
    by blast
qed

theorem stateful_release_retains_record_witness:
  "\<exists>S rs r.
     S = run empty_allocator [DoAllocate pod3 dual_stack [overlay_v4, overlay_v6]] \<and>
     well_formed S \<and> is_stateful (identity_of pod3) \<and>
     bound S (identity_of pod3) = Some rs \<and> r \<in> set rs \<and>
     subnet r = ''overlay-v4'' \<and> address r = 101 \<and>
     used (Release S (identity_of pod3)) = used S \<and>
     bound (Release S (identity_of pod3)) (identity_of pod3) = None \<and>
     (\<exists>kept. Lookup (retention (Release S (identity_of pod3))) (identity_of pod3) = Some kept \<and>
        r\<lparr> binding := (binding r)\<lparr> PodUID := [], NodeName := [] \<rparr> \<rparr> \<in> set kept) \<and>
     Lookup (retention (run (Release S (identity_of pod3))
                [DoAllocate pod5 dual_stack [overlay_v4, overlay_v6],
                 DoRelease (identity_of pod5), DoPurge (identity_of pod5)]))
        (identity_of pod3) =
       Lookup (retention (Release S (identity_of pod3))) (identity_of pod3) \<and>
     101 \<in> used (run (Release S (identity_of pod3))
                [DoAllocate pod5 dual_stack [overlay_v4, overlay_v6],
                 DoRelease (identity_of pod5), DoPurge (identity_of pod5)]) ''overlay-v4'' \<and>
     (\<exists>rs' st'.
        Allocate (run (Release S (identity_of pod3))
                [DoAllocate pod5 dual_stack [overlay_v4, overlay_v6],
                 DoRelease (identity_of pod5), DoPurge (identity_of pod5)])
          pod5 dual_stack [overlay_v4, overlay_v6] = Inr (rs', st') \<and>
        list_all (\<lambda>r'. (subnet r', address r') \<noteq> (''overlay-v4'', 101)) rs')"
proof -
  define S where "S = run empty_allocator [DoAllocate pod3 dual_stack [overlay_v4, overlay_v6]]"
  let ?id = "identity_of pod3"
  let ?ops = "[DoAllocate pod5 dual_stack [overlay_v4, overlay_v6],
               DoRelease (identity_of pod5), DoPurge (identity_of pod5)]"
  from first_allocation obtain r4 r6 st1 where
    a: "Allocate empty_allocator pod3 dual_stack [overlay_v4, overlay_v6] = Inr ([r4, r6], st1)" and
    r4: "subnet r4 = ''overlay-v4''" "address r4 = 101"
    by force
  from a have S: "S = st1"
    by (simp add: S_def run_def)
  have wf: "well_formed S"
    unfolding S_def by (rule well_formed_run [OF well_formed_empty])
  have s: "is_stateful ?id"
    by (simp add: identity_of_pod3 pod3_identity_stateful)
  from Allocate_post [OF a] S have b: "bound S ?id = Some [r4, r6]"
    by simp
  have m: "r4 \<in> set [r4, r6]"
    by simp
  have others: "\<forall>op \<in> set ?ops. subject op \<noteq> ?id"
    by (simp add: identity_of_pod3 identity_of_pod5)
  have other: "identity_of pod5 \<noteq> ?id"
    by (simp add: identity_of_pod3 identity_of_pod5)
  from other_workload_allocates obtain rs' st' where
    a5: "Allocate (run (Release S ?id) ?ops) pod5 dual_stack [overlay_v4, overlay_v6] =
           Inr (rs', st')"
    unfolding S_def
    by (cases "Allocate (run (Release (run empty_allocator
                 [DoAllocate pod3 dual_stack [overlay_v4, overlay_v6]]) (identity_of pod3)) ?ops)
            pod5 dual_stack [overlay_v4, overlay_v6]") auto
  note t = stateful_release_retains_record [OF wf s b m]
  from t have 1: "used (Release S ?id) = used S" by blast
  from t have 2: "bound (Release S ?id) ?id = None" by blast
  from t have 3: "\<exists>kept. Lookup (retention (Release S ?id)) ?id = Some kept \<and>
        r4\<lparr> binding := (binding r4)\<lparr> PodUID := [], NodeName := [] \<rparr> \<rparr> \<in> set kept" by blast
  from t others have 4: "Lookup (retention (run (Release S ?id) ?ops)) ?id =
       Lookup (retention (Release S ?id)) ?id" by blast
  from t others have 5: "address r4 \<in> used (run (Release S ?id) ?ops) (subnet r4)" by blast
  from t others other a5 have "\<forall>r' \<in> set rs'. (subnet r', address r') \<noteq> (subnet r4, address r4)"
    by blast
  with r4 have 6: "list_all (\<lambda>r'. (subnet r', address r') \<noteq> (''overlay-v4'', 101)) rs'"
    by (simp add: list_all_iff)
  from 6 a5 have 7: "\<exists>rs' st'.
        Allocate (run (Release S ?id) ?ops) pod5 dual_stack [overlay_v4, overlay_v6] = Inr (rs', st') \<and>
        list_all (\<lambda>r'. (subnet r', address r') \<noteq> (''overlay-v4'', 101)) rs'"
    by blast
  from 5 r4 have reserved: "101 \<in> used (run (Release S ?id) ?ops) ''overlay-v4''" by simp
  show ?thesis
    by (rule exI [of _ S], rule exI [of _ "[r4, r6]"], rule exI [of _ r4], intro conjI)
       (rule S_def wf s b m r4 1 2 3 4 reserved 7)+
qed

subsection \<open>Retention round trip\<close>

text \<open>
  Claim C7. A stateful workload is allocated records, then released. A second allocation
  for a workload with the same identity (same owner, same ordinal), whatever its
  criteria and subnets, succeeds and returns the same records, position by position:
  same address, MAC, family, subnet, network, referred object and ordinal, now bound to
  the UID, name and node of the new pod.
\<close>

theorem retention_round_trip:
  assumes "is_stateful (identity_of w1)" and "identity_of w2 = identity_of w1"
    and "Allocate st w1 c1 subnets1 = Inr (rs, st1)" and "rs \<noteq> []"
  shows "\<exists>rs' st3.
           Allocate (Release st1 (identity_of w1)) w2 c2 subnets2 = Inr (rs', st3) \<and>
           list_all2 (\<lambda>r r'.
              address r' = address r \<and> mac r' = mac r \<and> family r' = family r \<and>
              subnet r' = subnet r \<and> network r' = network r \<and>
              ReferredObject (binding r') = ReferredObject (binding r) \<and>
              Stateful (binding r') = Stateful (binding r) \<and>
              PodUID (binding r') = pod_uid w2 \<and> PodName (binding r') = pod_name w2 \<and>
              NodeName (binding r') = pod_node w2) rs rs'"
proof -
  let ?id = "identity_of w1"
  from Allocate_post [OF assms(3)] have
    b: "bound st1 ?id = Some rs" and
    none: "Lookup (retention st1) ?id = None" and
    keys: "\<forall>r \<in> set rs. key_of_record r = key_of_identity ?id"
    by simp_all
  from Release_stateful_Lookup [OF assms(1) b assms(4) keys] none
  have kept: "Lookup (retention (Release st1 ?id)) ?id = Some (map clear_binding rs)"
    by simp
  from keys have ok: "\<not> list_ex (\<lambda>r. key_of_record r \<noteq> key_of_identity ?id) (map clear_binding rs)"
    by (simp add: list_ex_iff)
  have "\<exists>st3. Allocate (Release st1 ?id) w2 c2 subnets2 = Inr (map (rebind w2) rs, st3)"
    using kept ok assms(2) by (simp add: Allocate_def comp_def)
  moreover have "list_all2 (\<lambda>r r'.
              address r' = address r \<and> mac r' = mac r \<and> family r' = family r \<and>
              subnet r' = subnet r \<and> network r' = network r \<and>
              ReferredObject (binding r') = ReferredObject (binding r) \<and>
              Stateful (binding r') = Stateful (binding r) \<and>
              PodUID (binding r') = pod_uid w2 \<and> PodName (binding r') = pod_name w2 \<and>
              NodeName (binding r') = pod_node w2) rs (map (rebind w2) rs)"
    by (simp add: list_all2_map2 list_all2_same rebind_def)
  ultimately show ?thesis by blast
qed

theorem retention_round_trip_witness:
  "is_stateful (identity_of pod3) \<and> identity_of pod3_again = identity_of pod3 \<and>
   (\<exists>rs st1.
      Allocate empty_allocator pod3 dual_stack [overlay_v4, overlay_v6] = Inr (rs, st1) \<and>
      rs \<noteq> [] \<and>
      (\<exists>rs' st3.
         Allocate (Release st1 (identity_of pod3)) pod3_again dual_stack [overlay_v4, overlay_v6] =
           Inr (rs', st3) \<and>
         list_all2 (\<lambda>r r'.
            address r' = address r \<and> mac r' = mac r \<and> family r' = family r \<and>
            subnet r' = subnet r \<and> network r' = network r \<and>
            ReferredObject (binding r') = ReferredObject (binding r) \<and>
            Stateful (binding r') = Stateful (binding r) \<and>
            PodUID (binding r') = ''uid-b'' \<and> PodName (binding r') = ''pod-3'' \<and>
            NodeName (binding r') = ''node1'') rs rs'))"
proof -
  have s: "is_stateful (identity_of pod3)"
    by (simp add: identity_of_pod3 pod3_identity_stateful)
  have e: "identity_of pod3_again = identity_of pod3"
    by (simp add: identity_of_pod3 identity_of_pod3_again)
  from first_allocation obtain rs st1 where
    a: "Allocate empty_allocator pod3 dual_stack [overlay_v4, overlay_v6] = Inr (rs, st1)" and
    n: "rs \<noteq> []"
    by blast
  have p: "pod_uid pod3_again = ''uid-b''" "pod_name pod3_again = ''pod-3''"
          "pod_node pod3_again = ''node1''"
    by (simp_all add: pod3_again_def)
  from retention_round_trip [OF s e a n, of dual_stack "[overlay_v4, overlay_v6]"] s e a n
  show ?thesis
    unfolding p by blast
qed

subsection \<open>Dual-stack allocation\<close>

lemma dual_stack_pair_iff:
  "dual_stack_pair rs \<longleftrightarrow>
     (\<exists>r4 r6. rs = [r4, r6] \<and> family r4 = IPv4 \<and> family r6 = IPv6 \<and> mac r4 = mac r6)"
proof (cases rs)
  case Nil
  then show ?thesis by (simp add: dual_stack_pair_def)
next
  case (Cons a tl1)
  note outer = Cons
  show ?thesis
  proof (cases tl1)
    case Nil
    with outer show ?thesis by (simp add: dual_stack_pair_def)
  next
    case (Cons b tl2)
    with outer show ?thesis by (cases tl2) (simp_all add: dual_stack_pair_def)
  qed
qed

lemma map_eq_pair:
  "map f xs = [a, b] \<Longrightarrow> \<exists>x y. xs = [x, y] \<and> f x = a \<and> f y = b"
  by (auto simp: map_eq_Cons_conv)

lemma dual_stack_pair_rebind: "dual_stack_pair kept \<Longrightarrow> dual_stack_pair (map (rebind w) kept)"
  unfolding dual_stack_pair_iff by (auto simp: rebind_def)

lemma dual_stack_pair_clear_binding:
  "dual_stack_pair rs \<Longrightarrow> dual_stack_pair (map clear_binding rs)"
  unfolding dual_stack_pair_iff by (auto simp: clear_binding_def)

lemma Allocate_both_families:
  assumes a: "Allocate st w c subnets = Inr (rs, st')" and c: "families c = [IPv4, IPv6]"
    and kept: "\<forall>kept. Lookup (retention st) (identity_of w) = Some kept \<longrightarrow> dual_stack_pair kept"
  shows "dual_stack_pair rs"
proof (cases "Lookup (retention st) (identity_of w)")
  case None
  with a have "allocate_fresh st w c subnets = Inr (rs, st')"
    by (simp add: Allocate_def)
  from allocate_fresh_post [OF this] c have
    fam: "map family rs = [IPv4, IPv6]" and macs: "\<forall>r \<in> set rs. mac r = next_mac st"
    by simp_all
  from map_eq_pair [OF fam] obtain r4 r6 where
    rs: "rs = [r4, r6]" "family r4 = IPv4" "family r6 = IPv6"
    by blast
  from macs rs(1) have "mac r4 = mac r6" by simp
  with rs show ?thesis unfolding dual_stack_pair_iff by blast
next
  case (Some k)
  with kept have "dual_stack_pair k" by simp
  moreover from Some a have "rs = map (rebind w) k"
    by (simp add: Allocate_def split: if_splits)
  ultimately show ?thesis by (simp add: dual_stack_pair_rebind)
qed

lemma perform_keeps_other_bound:
  assumes "subject op \<noteq> ident"
  shows "bound (perform st op) ident = bound st ident"
proof (cases op)
  case (DoAllocate w c subnets)
  show ?thesis
  proof (cases "Allocate st w c subnets")
    case (Inl e)
    with DoAllocate show ?thesis by simp
  next
    case (Inr res)
    obtain rs st' where res: "res = (rs, st')" by (cases res)
    from Allocate_post [OF Inr [unfolded res]] assms DoAllocate Inr res show ?thesis
      by simp
  qed
next
  case (DoRelease other)
  with assms show ?thesis
    by (simp add: Release_def split: option.splits)
next
  case (DoPurge other)
  then show ?thesis
    by (simp add: Purge_def split: option.splits)
qed

lemma perform_keeps_other_Lookup:
  assumes bc: "bound_consistent st" and other: "subject op \<noteq> ident"
  shows "Lookup (retention (perform st op)) ident = Lookup (retention st) ident"
proof (cases "key_of_identity ident")
  case None
  then show ?thesis by (simp add: Lookup_def)
next
  case (Some key)
  then have "is_stateful ident"
    by (simp add: key_of_identity_def split: if_splits)
  from key_of_identity_inj [OF this other] Some have "key_of_identity (subject op) \<noteq> Some key"
    by simp
  from perform_keeps_other_entries [OF bc this] Some show ?thesis
    by (simp add: Lookup_def)
qed

lemma pairs_for_perform:
  assumes bc: "bound_consistent st" and p: "pairs_for st ident"
    and both: "subject op = ident \<longrightarrow> requests_both_families op"
  shows "pairs_for (perform st op) ident"
proof (cases "subject op = ident")
  case False
  from perform_keeps_other_bound [OF False] perform_keeps_other_Lookup [OF bc False] p
  show ?thesis by (simp add: pairs_for_def)
next
  case True
  show ?thesis
  proof (cases op)
    case (DoAllocate w c subnets)
    with True both have w: "identity_of w = ident" and c: "families c = [IPv4, IPv6]"
      by simp_all
    show ?thesis
    proof (cases "Allocate st w c subnets")
      case (Inl e)
      with DoAllocate p show ?thesis by simp
    next
      case (Inr res)
      obtain rs st' where res: "res = (rs, st')" by (cases res)
      note a = Inr [unfolded res]
      from p w have "\<forall>kept. Lookup (retention st) (identity_of w) = Some kept \<longrightarrow> dual_stack_pair kept"
        by (simp add: pairs_for_def)
      from Allocate_both_families [OF a c this] have "dual_stack_pair rs" .
      with Allocate_post [OF a] w DoAllocate Inr res show ?thesis
        by (simp add: pairs_for_def)
    qed
  next
    case (DoRelease other)
    with True have o: "other = ident" by simp
    show ?thesis
    proof (cases "bound st ident")
      case None
      with DoRelease o p show ?thesis by (simp add: Release_def)
    next
      case (Some rs)
      with p have pair: "dual_stack_pair rs" and none: "Lookup (retention st) ident = None"
        by (simp_all add: pairs_for_def)
      show ?thesis
      proof (cases "is_stateful ident")
        case False
        with Some none DoRelease o show ?thesis
          by (simp add: pairs_for_def Release_def)
      next
        case True
        from pair have ne: "rs \<noteq> []" by (auto simp: dual_stack_pair_iff)
        from bc Some have keys: "\<forall>r \<in> set rs. key_of_record r = key_of_identity ident"
          by (auto simp: bound_consistent_def)
        from Release_stateful_Lookup [OF True Some ne keys] none
        have "Lookup (retention (Release st ident)) ident = Some (map clear_binding rs)"
          by simp
        moreover from True Some have "bound (Release st ident) ident = None"
          by (simp add: Release_def)
        ultimately show ?thesis
          using DoRelease o pair by (simp add: pairs_for_def dual_stack_pair_clear_binding)
      qed
    qed
  next
    case (DoPurge other)
    with True have o: "other = ident" by simp
    show ?thesis
    proof (cases "Lookup (retention st) ident")
      case None
      with DoPurge o p show ?thesis by (simp add: Purge_def)
    next
      case (Some kept)
      with DoPurge o p show ?thesis
        by (simp add: Purge_def pairs_for_def)
    qed
  qed
qed

lemma pairs_for_run:
  assumes "bound_consistent st" and "pairs_for st ident"
    and "\<forall>op \<in> set ops. subject op = ident \<longrightarrow> requests_both_families op"
  shows "pairs_for (run st ops) ident"
  using assms unfolding run_def
proof (induction ops arbitrary: st)
  case Nil
  then show ?case by simp
next
  case (Cons op ops)
  from Cons.prems have "pairs_for (perform st op) ident" "bound_consistent (perform st op)"
    by (simp_all add: pairs_for_perform bound_consistent_perform)
  with Cons.prems Cons.IH [of "perform st op"] show ?case
    by simp
qed

lemma pairs_for_empty: "pairs_for empty_allocator ident"
  by (simp add: pairs_for_def empty_allocator_def)

text \<open>
  Claim C8, as stated, fails: what is retained for a workload is returned as it is. A
  stateful workload that was allocated IPv4 only and released has one record retained,
  and its next allocation, asking for both families, returns that one record.
\<close>

theorem single_family_retained_counterexample:
  "map_sum id (map family \<circ> fst)
     (Allocate (run empty_allocator
                  [DoAllocate pod3 ipv4_only [overlay_v4, overlay_v6],
                   DoRelease (identity_of pod3)])
        pod3_again dual_stack [overlay_v4, overlay_v6]) = Inr [IPv4] \<and>
   families dual_stack = [IPv4, IPv6]"
  by code_simp

text \<open>
  Claim C8, amended. In a state reached from the empty allocator by a run in which every
  allocation for the identity of the workload asked for both families (in particular when
  there was none), an allocation that asks for both families returns exactly two records,
  the first IPv4 and the second IPv6, with the same MAC, whether they are fresh or were
  retained.
\<close>

theorem dual_stack_allocation_is_pair_with_one_mac:
  assumes "\<forall>op \<in> set ops. subject op = identity_of w \<longrightarrow> requests_both_families op"
    and "Allocate (run empty_allocator ops) w \<lparr> networkType = nt, families = [IPv4, IPv6] \<rparr>
           subnets = Inr (rs, st')"
  shows "\<exists>r4 r6. rs = [r4, r6] \<and> family r4 = IPv4 \<and> family r6 = IPv6 \<and> mac r4 = mac r6"
proof -
  from pairs_for_run [OF bound_consistent_empty pairs_for_empty assms(1)]
  have "pairs_for (run empty_allocator ops) (identity_of w)" .
  then have "\<forall>kept. Lookup (retention (run empty_allocator ops)) (identity_of w) = Some kept \<longrightarrow>
      dual_stack_pair kept"
    by (simp add: pairs_for_def)
  from Allocate_both_families [OF assms(2) _ this] show ?thesis
    by (simp add: dual_stack_pair_iff)
qed

lemma rebound_pair_evaluated:
  "map_sum id (map address \<circ> fst)
     (Allocate (run empty_allocator
                  [DoAllocate pod3 dual_stack [overlay_v4, overlay_v6],
                   DoRelease (identity_of pod3)])
        pod3_again \<lparr> networkType = Overlay, families = [IPv4, IPv6] \<rparr>
        [overlay_v4, overlay_v6]) = Inr [101, 600]"
  by code_simp

theorem dual_stack_allocation_is_pair_with_one_mac_witness:
  "\<exists>rs st'.
     Allocate (run empty_allocator
                 [DoAllocate pod3 dual_stack [overlay_v4, overlay_v6],
                  DoRelease (identity_of pod3)])
       pod3_again \<lparr> networkType = Overlay, families = [IPv4, IPv6] \<rparr>
       [overlay_v4, overlay_v6] = Inr (rs, st') \<and>
     map address rs = [101, 600] \<and>
     (\<exists>r4 r6. rs = [r4, r6] \<and> family r4 = IPv4 \<and> family r6 = IPv6 \<and> mac r4 = mac r6)"
proof -
  let ?ops = "[DoAllocate pod3 dual_stack [overlay_v4, overlay_v6], DoRelease (identity_of pod3)]"
  from rebound_pair_evaluated obtain rs st' where
    a: "Allocate (run empty_allocator ?ops) pod3_again
          \<lparr> networkType = Overlay, families = [IPv4, IPv6] \<rparr> [overlay_v4, overlay_v6] =
        Inr (rs, st')" and
    addr: "map address rs = [101, 600]"
    by (cases "Allocate (run empty_allocator ?ops) pod3_again
          \<lparr> networkType = Overlay, families = [IPv4, IPv6] \<rparr> [overlay_v4, overlay_v6]")
       auto
  have h: "\<forall>op \<in> set ?ops. subject op = identity_of pod3_again \<longrightarrow> requests_both_families op"
    by (simp add: dual_stack_def)
  from dual_stack_allocation_is_pair_with_one_mac [OF h a] have
    p: "\<exists>r4 r6. rs = [r4, r6] \<and> family r4 = IPv4 \<and> family r6 = IPv6 \<and> mac r4 = mac r6" .
  show ?thesis
    by (rule exI [of _ rs], rule exI [of _ st'], intro conjI) (rule a addr p)+
qed

end
